theory Spec2Isabelle
  imports Complex_Main "HOL-Library.Char_ord" "HOL-Library.Multiset"
begin

section \<open>Strings and numbers of the host language\<close>

text \<open>
  The program is TypeScript. Its strings are modelled as \<open>string\<close> restricted to ASCII,
  its integers read from files as \<open>int\<close>, and its other finite numbers as \<open>rat\<close>
  (exact arithmetic; the rounding of IEEE doubles is not modelled). Where the code can
  produce \<open>NaN\<close> or an infinity, the type \<open>jsnum\<close> below carries them.
\<close>

definition isWhiteSpace :: "char \<Rightarrow> bool" where
  "isWhiteSpace c = (c \<in> set [CHR 0x09, CHR 0x0A, CHR 0x0B, CHR 0x0C, CHR 0x0D, CHR 0x20])"

definition isDigit :: "char \<Rightarrow> bool" where
  "isDigit c = (CHR ''0'' \<le> c \<and> c \<le> CHR ''9'')"

definition digitVal :: "char \<Rightarrow> int" where
  "digitVal c = of_char c - 48"

text \<open>\<open>String.prototype.trim\<close>: white space removed at both ends.\<close>

definition trimStart :: "string \<Rightarrow> string" where
  "trimStart s = dropWhile isWhiteSpace s"

definition trim :: "string \<Rightarrow> string" where
  "trim s = rev (dropWhile isWhiteSpace (rev (dropWhile isWhiteSpace s)))"

definition toLowerChar :: "char \<Rightarrow> char" where
  "toLowerChar c = (if CHR ''A'' \<le> c \<and> c \<le> CHR ''Z'' then char_of (of_char c + (32::nat)) else c)"

definition toLowerCase :: "string \<Rightarrow> string" where
  "toLowerCase s = map toLowerChar s"

text \<open>
  \<open>s.split(c)\<close> for a one-character separator: the pieces between the separators,
  empty pieces kept; the empty string gives one empty piece.
\<close>

fun split :: "char \<Rightarrow> string \<Rightarrow> string list" where
  "split c [] = [[]]"
| "split c (x # xs) =
     (if x = c then [] # split c xs
      else (case split c xs of [] \<Rightarrow> [[x]] | w # ws \<Rightarrow> (x # w) # ws))"

text \<open>The value of a run of decimal digits, most significant first.\<close>

definition digitsVal :: "string \<Rightarrow> int" where
  "digitsVal ds = foldl (\<lambda>acc d. 10 * acc + digitVal d) 0 ds"

text \<open>
  \<open>parseInt(s, 10)\<close>: leading white space is skipped, one sign is read, then the longest
  run of decimal digits; anything after it is ignored. With no digit the result is
  \<open>NaN\<close>, here \<open>None\<close>.
\<close>

definition parseInt :: "string \<Rightarrow> int option" where
  "parseInt s =
     (let t = trimStart s;
          neg = (t \<noteq> [] \<and> hd t = CHR ''-'');
          u = (if t \<noteq> [] \<and> (hd t = CHR ''-'' \<or> hd t = CHR ''+'') then tl t else t);
          z = takeWhile isDigit u
      in if z = [] then None
         else Some (if neg then - digitsVal z else digitsVal z))"

text \<open>
  \<open>parseInt(s)\<close> with no radix: as above, except that after the sign a prefix \<open>0x\<close> or
  \<open>0X\<close> switches to hexadecimal digits.
\<close>

definition isHexDigit :: "char \<Rightarrow> bool" where
  "isHexDigit c =
     (isDigit c \<or> (CHR ''a'' \<le> c \<and> c \<le> CHR ''f'') \<or> (CHR ''A'' \<le> c \<and> c \<le> CHR ''F''))"

definition hexDigitVal :: "char \<Rightarrow> int" where
  "hexDigitVal c =
     (if isDigit c then of_char c - 48
      else if CHR ''a'' \<le> c \<and> c \<le> CHR ''f'' then of_char c - 87
      else of_char c - 55)"

definition hexDigitsVal :: "string \<Rightarrow> int" where
  "hexDigitsVal ds = foldl (\<lambda>acc d. 16 * acc + hexDigitVal d) 0 ds"

definition parseIntAuto :: "string \<Rightarrow> int option" where
  "parseIntAuto s =
     (let t = trimStart s;
          neg = (t \<noteq> [] \<and> hd t = CHR ''-'');
          u = (if t \<noteq> [] \<and> (hd t = CHR ''-'' \<or> hd t = CHR ''+'') then tl t else t)
      in if take 2 u = ''0x'' \<or> take 2 u = ''0X'' then
           (let z = takeWhile isHexDigit (drop 2 u)
            in if z = [] then None
               else Some (if neg then - hexDigitsVal z else hexDigitsVal z))
         else
           (let z = takeWhile isDigit u
            in if z = [] then None
               else Some (if neg then - digitsVal z else digitsVal z)))"

text \<open>\<open>s.includes(pat)\<close> and \<open>s.startsWith(pat)\<close>.\<close>

definition startsWith :: "string \<Rightarrow> string \<Rightarrow> bool" where
  "startsWith pat s = (take (length pat) s = pat)"

fun strIncludes :: "string \<Rightarrow> string \<Rightarrow> bool" where
  "strIncludes pat [] = (pat = [])"
| "strIncludes pat (x # xs) = (startsWith pat (x # xs) \<or> strIncludes pat xs)"

text \<open>
  The decimal digits of a number that is not negative, and \<open>x.toFixed(f)\<close> for a finite
  \<open>x\<close> below \<open>10^21\<close> in size: the nearest multiple of \<open>10^-f\<close>, the larger one on a tie,
  written with exactly \<open>f\<close> decimals. (From \<open>10^21\<close> on the language prints exponent
  notation; the values formatted here are percentages and stay far below.)
\<close>

function decimalDigits :: "int \<Rightarrow> string" where
  "decimalDigits n =
     (if n < 10 then [char_of (48 + n)]
      else decimalDigits (n div 10) @ [char_of (48 + n mod 10)])"
  by pat_completeness auto
termination
  by (relation "measure nat") auto

definition fixedDigits :: "nat \<Rightarrow> rat \<Rightarrow> string" where
  "fixedDigits f x =
     (let n = \<lfloor>x * 10 ^ f + 1 / 2\<rfloor>;
          m = decimalDigits n;
          m' = (if length m \<le> f then replicate (f + 1 - length m) (CHR ''0'') @ m else m)
      in if f = 0 then m'
         else take (length m' - f) m' @ ''.'' @ drop (length m' - f) m')"

definition toFixed :: "nat \<Rightarrow> rat \<Rightarrow> string" where
  "toFixed f x = (if x < 0 then ''-'' @ fixedDigits f (- x) else fixedDigits f x)"

text \<open>
  A number that may be \<open>NaN\<close> or infinite. Zero is always the positive zero in the
  expressions modelled with it.
\<close>

datatype jsnum = Fin rat | PInf | NInf | NaN

fun jsSub :: "jsnum \<Rightarrow> jsnum \<Rightarrow> jsnum" where
  "jsSub NaN _ = NaN"
| "jsSub _ NaN = NaN"
| "jsSub (Fin a) (Fin b) = Fin (a - b)"
| "jsSub (Fin a) PInf = NInf"
| "jsSub (Fin a) NInf = PInf"
| "jsSub PInf PInf = NaN"
| "jsSub PInf _ = PInf"
| "jsSub NInf NInf = NaN"
| "jsSub NInf _ = NInf"

fun jsMul :: "jsnum \<Rightarrow> jsnum \<Rightarrow> jsnum" where
  "jsMul NaN _ = NaN"
| "jsMul _ NaN = NaN"
| "jsMul (Fin a) (Fin b) = Fin (a * b)"
| "jsMul (Fin a) PInf = (if a = 0 then NaN else if a > 0 then PInf else NInf)"
| "jsMul (Fin a) NInf = (if a = 0 then NaN else if a > 0 then NInf else PInf)"
| "jsMul PInf (Fin b) = (if b = 0 then NaN else if b > 0 then PInf else NInf)"
| "jsMul NInf (Fin b) = (if b = 0 then NaN else if b > 0 then NInf else PInf)"
| "jsMul PInf PInf = PInf"
| "jsMul PInf NInf = NInf"
| "jsMul NInf PInf = NInf"
| "jsMul NInf NInf = PInf"

fun jsDiv :: "jsnum \<Rightarrow> jsnum \<Rightarrow> jsnum" where
  "jsDiv NaN _ = NaN"
| "jsDiv _ NaN = NaN"
| "jsDiv (Fin a) (Fin b) =
     (if b \<noteq> 0 then Fin (a / b)
      else if a = 0 then NaN else if a > 0 then PInf else NInf)"
| "jsDiv (Fin a) PInf = Fin 0"
| "jsDiv (Fin a) NInf = Fin 0"
| "jsDiv PInf (Fin b) = (if b \<ge> 0 then PInf else NInf)"
| "jsDiv NInf (Fin b) = (if b \<ge> 0 then NInf else PInf)"
| "jsDiv PInf _ = NaN"
| "jsDiv NInf _ = NaN"

text \<open>\<open>Math.max\<close> and \<open>Math.min\<close> of two numbers: \<open>NaN\<close> when either is.\<close>

fun jsMax :: "jsnum \<Rightarrow> jsnum \<Rightarrow> jsnum" where
  "jsMax NaN _ = NaN"
| "jsMax _ NaN = NaN"
| "jsMax PInf _ = PInf"
| "jsMax _ PInf = PInf"
| "jsMax NInf y = y"
| "jsMax x NInf = x"
| "jsMax (Fin a) (Fin b) = Fin (max a b)"

fun jsMin :: "jsnum \<Rightarrow> jsnum \<Rightarrow> jsnum" where
  "jsMin NaN _ = NaN"
| "jsMin _ NaN = NaN"
| "jsMin NInf _ = NInf"
| "jsMin _ NInf = NInf"
| "jsMin PInf y = y"
| "jsMin x PInf = x"
| "jsMin (Fin a) (Fin b) = Fin (min a b)"

text \<open>\<open>x >= y\<close>, false when either side is \<open>NaN\<close>.\<close>

fun jsGe :: "jsnum \<Rightarrow> jsnum \<Rightarrow> bool" where
  "jsGe NaN _ = False"
| "jsGe _ NaN = False"
| "jsGe PInf _ = True"
| "jsGe _ NInf = True"
| "jsGe NInf _ = False"
| "jsGe _ PInf = False"
| "jsGe (Fin a) (Fin b) = (a \<ge> b)"

text \<open>A number used as a condition: zero and \<open>NaN\<close> are false.\<close>

fun truthy :: "jsnum \<Rightarrow> bool" where
  "truthy (Fin a) = (a \<noteq> 0)"
| "truthy NaN = False"
| "truthy _ = True"

section \<open>The UID allow-list (\<open>buildAllowedUidSet\<close>)\<close>

text \<open>
  The module reads the environment once:
  \<open>ENV_PROC_MODE = (process.env.PROC_MODE || "all").toLowerCase().trim()\<close> and
  \<open>ENV_PROC_UIDS = process.env.PROC_UIDS?.trim()\<close>. An unset variable is \<open>None\<close>.
\<close>

definition ENV_PROC_MODE :: "string option \<Rightarrow> string" where
  "ENV_PROC_MODE raw =
     trim (toLowerCase (case raw of None \<Rightarrow> ''all'' | Some m \<Rightarrow> if m = [] then ''all'' else m))"

definition ENV_PROC_UIDS :: "string option \<Rightarrow> string option" where
  "ENV_PROC_UIDS raw = map_option trim raw"

text \<open>
  The loop of \<open>buildAllowedUidSet\<close> over the comma-separated parts, each trimmed, the
  empty ones dropped: a part that parses is added to the set.
\<close>

definition uidParts :: "string \<Rightarrow> string list" where
  "uidParts s = filter (\<lambda>p. p \<noteq> []) (map trim (split (CHR '','') s))"

definition addUids :: "string list \<Rightarrow> int set \<Rightarrow> int set" where
  "addUids parts s0 =
     foldl (\<lambda>s part. case parseInt part of None \<Rightarrow> s | Some n \<Rightarrow> insert n s) s0 parts"

text \<open>
  \<open>getuid\<close> is \<open>None\<close> where \<open>process.getuid\<close> is not a function; \<open>myUid\<close> is then 0.
  The result \<open>None\<close> is the source's \<open>null\<close>: no filter.
\<close>

definition buildAllowedUidSet :: "string option \<Rightarrow> string \<Rightarrow> int option \<Rightarrow> int set option" where
  "buildAllowedUidSet envUids envMode getuid =
     (let myUid = (case getuid of None \<Rightarrow> 0 | Some u \<Rightarrow> u)
      in case envUids of
           Some l \<Rightarrow>
             if l \<noteq> [] then
               (let s = addUids (uidParts l) {}
                in Some (if s = {} then insert myUid s else s))
             else (if envMode = ''user'' then Some {myUid}
                   else if envMode = ''user+root'' then Some {myUid, 0}
                   else None)
         | None \<Rightarrow>
             (if envMode = ''user'' then Some {myUid}
              else if envMode = ''user+root'' then Some {myUid, 0}
              else None))"

text \<open>
  The test of \<open>listProcessSamples\<close> on each PID: with an allow-list, a PID whose UID is
  unreadable or not in the list is skipped; without one every PID passes.
\<close>

definition uidPasses :: "int set option \<Rightarrow> int option \<Rightarrow> bool" where
  "uidPasses allowedUids uid =
     (case allowedUids of
        None \<Rightarrow> True
      | Some s \<Rightarrow> (case uid of None \<Rightarrow> False | Some u \<Rightarrow> u \<in> s))"

section \<open>Per-process sampling (\<open>listProcessSamples\<close>)\<close>

text \<open>
  \<open>PROC_MAX = Math.max(1, parseInt(process.env.PROC_MAX || "8192", 10) || 8192)\<close>.
\<close>

definition PROC_MAX :: "string option \<Rightarrow> int" where
  "PROC_MAX raw =
     (let s = (case raw of None \<Rightarrow> ''8192'' | Some v \<Rightarrow> if v = [] then ''8192'' else v);
          n = (case parseInt s of None \<Rightarrow> 8192 | Some k \<Rightarrow> if k = 0 then 8192 else k)
      in max 1 n)"

text \<open>The values of the module's map \<open>prevProcTimes\<close>, keyed by PID.\<close>

record procTimes =
  jiffies :: int
  ts :: int

type_synonym prevTimes = "int \<rightharpoonup> procTimes"

text \<open>One element of \<open>samples\<close>; an absent \<open>cpu_percent\<close> or \<open>mem_percent\<close> is \<open>None\<close>.\<close>

record sample =
  pid :: int
  uid :: "int option"
  ppid :: int
  command :: string
  cpu_percent :: "rat option"
  mem_bytes :: int
  mem_percent :: "rat option"

text \<open>
  What the reads under \<open>/proc\<close> return during one cycle: the numeric directory names
  (empty when \<open>readdir\<close> throws), and per PID the results of \<open>getPidUid\<close>,
  \<open>getPidCmdline\<close>, \<open>getPidTimesAndPpid\<close> (the pair \<open>(jiffies, ppid)\<close>) and
  \<open>getPidRssBytes\<close>, each of which catches its own errors.
\<close>

record procfs =
  readdir :: "int list"
  getPidUid :: "int \<Rightarrow> int option"
  getPidCmdline :: "int \<Rightarrow> string"
  getPidTimesAndPpid :: "int \<Rightarrow> (int \<times> int) option"
  getPidRssBytes :: "int \<Rightarrow> int"

text \<open>
  The CPU share of one process: absent without a previous entry or when no time has
  passed since it; otherwise the clamped ratio. \<open>1e-6\<close> is \<open>1 / 1000000\<close>.
\<close>

definition cpuPct :: "int \<Rightarrow> rat \<Rightarrow> int \<Rightarrow> int \<Rightarrow> procTimes option \<Rightarrow> rat option" where
  "cpuPct now cpuLimit clkTck jif prev =
     (case prev of
        None \<Rightarrow> None
      | Some pr \<Rightarrow>
          (let deltaSec = of_int (now - ts pr) / 1000
           in if deltaSec > 0 then
                (let deltaJ = jif - jiffies pr;
                     cpuTimeSec = of_int deltaJ / of_int clkTck
                 in Some (min 100 (max 0 ((cpuTimeSec / deltaSec) * (100 / max cpuLimit (1 / 1000000))))))
              else None))"

definition memPct :: "int \<Rightarrow> int \<Rightarrow> rat option" where
  "memPct memLimitBytes rssBytes =
     (if memLimitBytes > 0 then Some ((of_int rssBytes / of_int memLimitBytes) * 100) else None)"

definition mkSample :: "int \<Rightarrow> rat \<Rightarrow> int \<Rightarrow> int \<Rightarrow> procfs \<Rightarrow> int \<Rightarrow> int \<times> int \<Rightarrow> procTimes option \<Rightarrow> sample" where
  "mkSample now cpuLimit memLimitBytes clkTck fsx p tms prev =
     \<lparr>pid = p,
      uid = getPidUid fsx p,
      ppid = snd tms,
      command = (if getPidCmdline fsx p = [] then ''(unknown)'' else getPidCmdline fsx p),
      cpu_percent = cpuPct now cpuLimit clkTck (fst tms) prev,
      mem_bytes = getPidRssBytes fsx p,
      mem_percent = memPct memLimitBytes (getPidRssBytes fsx p)\<rparr>"

text \<open>
  The loop over the PIDs. A PID that fails the UID test or whose stat line is unreadable
  is skipped (\<open>continue\<close>); otherwise its entry in \<open>prevProcTimes\<close> is overwritten and
  its sample appended, and the loop stops (\<open>break\<close>) once \<open>PROC_MAX\<close> samples are held.
\<close>

fun sampleLoop ::
  "int set option \<Rightarrow> int \<Rightarrow> int \<Rightarrow> procfs \<Rightarrow> int \<Rightarrow> rat \<Rightarrow> int \<Rightarrow>
   int list \<Rightarrow> prevTimes \<Rightarrow> sample list \<Rightarrow> prevTimes \<times> sample list" where
  "sampleLoop allowed procMax clkTck fsx now cpuLimit memLimitBytes [] prev samples = (prev, samples)"
| "sampleLoop allowed procMax clkTck fsx now cpuLimit memLimitBytes (p # ps) prev samples =
     (if \<not> uidPasses allowed (getPidUid fsx p) then
        sampleLoop allowed procMax clkTck fsx now cpuLimit memLimitBytes ps prev samples
      else
        (case getPidTimesAndPpid fsx p of
           None \<Rightarrow> sampleLoop allowed procMax clkTck fsx now cpuLimit memLimitBytes ps prev samples
         | Some tms \<Rightarrow>
             (let s = mkSample now cpuLimit memLimitBytes clkTck fsx p tms (prev p);
                  prev' = prev(p \<mapsto> \<lparr>jiffies = fst tms, ts = now\<rparr>);
                  samples' = samples @ [s]
              in if int (length samples') \<ge> procMax then (prev', samples')
                 else sampleLoop allowed procMax clkTck fsx now cpuLimit memLimitBytes ps prev' samples')))"

text \<open>The clean-up loop: every key of the map that is not in the listing is deleted.\<close>

definition cleanup :: "int list \<Rightarrow> prevTimes \<Rightarrow> prevTimes" where
  "cleanup pids prev = (\<lambda>p. if p \<in> set pids then prev p else None)"

text \<open>
  The comparator given to \<open>sort\<close>:
  \<open>(b.cpu_percent ?? 0) - (a.cpu_percent ?? 0) || b.mem_bytes - a.mem_bytes\<close>.
\<close>

definition cmpSamples :: "sample \<Rightarrow> sample \<Rightarrow> rat" where
  "cmpSamples a b =
     (let d = (case cpu_percent b of None \<Rightarrow> 0 | Some v \<Rightarrow> v)
              - (case cpu_percent a of None \<Rightarrow> 0 | Some v \<Rightarrow> v)
      in if d \<noteq> 0 then d else of_int (mem_bytes b - mem_bytes a))"

text \<open>
  \<open>Array.prototype.sort\<close> is stable, and for a comparator that orders the elements
  consistently, as this one does, its result is the one stable arrangement in which no
  element is followed by one that compares before it. Insertion from the right, each
  element placed before the first one it does not compare after, computes it.
\<close>

fun insortBy :: "('a \<Rightarrow> 'a \<Rightarrow> rat) \<Rightarrow> 'a \<Rightarrow> 'a list \<Rightarrow> 'a list" where
  "insortBy cmp x [] = [x]"
| "insortBy cmp x (y # ys) = (if cmp x y \<le> 0 then x # y # ys else y # insortBy cmp x ys)"

definition sortBy :: "('a \<Rightarrow> 'a \<Rightarrow> rat) \<Rightarrow> 'a list \<Rightarrow> 'a list" where
  "sortBy cmp xs = foldr (insortBy cmp) xs []"

text \<open>
  \<open>listProcessSamples\<close>: the new \<open>prevProcTimes\<close> and the returned samples. The
  arguments before \<open>now\<close> are what the function reads from the module and the system:
  the allow-list's inputs, \<open>PROC_MAX\<close>, \<open>CLK_TCK\<close>, the \<open>/proc\<close> reads and the map.
\<close>

definition listProcessSamples ::
  "string option \<Rightarrow> string \<Rightarrow> int option \<Rightarrow> int \<Rightarrow> int \<Rightarrow> procfs \<Rightarrow> prevTimes \<Rightarrow>
   int \<Rightarrow> rat \<Rightarrow> int \<Rightarrow> prevTimes \<times> sample list" where
  "listProcessSamples envUids envMode getuid procMax clkTck fsx prev now cpuLimit memLimitBytes =
     (let allowedUids = buildAllowedUidSet envUids envMode getuid;
          pids = readdir fsx;
          r = sampleLoop allowedUids procMax clkTck fsx now cpuLimit memLimitBytes pids prev []
      in (cleanup pids (fst r), sortBy cmpSamples (snd r)))"

text \<open>
  The enumeration as the specification words it: every surviving PID is sampled, the
  samples are sorted, and the sorted list is cut to \<open>PROC_MAX\<close>. \<open>sampleAll\<close> is the loop
  without the \<open>break\<close>.
\<close>

fun sampleAll ::
  "int set option \<Rightarrow> int \<Rightarrow> procfs \<Rightarrow> int \<Rightarrow> rat \<Rightarrow> int \<Rightarrow>
   int list \<Rightarrow> prevTimes \<Rightarrow> sample list \<Rightarrow> prevTimes \<times> sample list" where
  "sampleAll allowed clkTck fsx now cpuLimit memLimitBytes [] prev samples = (prev, samples)"
| "sampleAll allowed clkTck fsx now cpuLimit memLimitBytes (p # ps) prev samples =
     (if \<not> uidPasses allowed (getPidUid fsx p) then
        sampleAll allowed clkTck fsx now cpuLimit memLimitBytes ps prev samples
      else
        (case getPidTimesAndPpid fsx p of
           None \<Rightarrow> sampleAll allowed clkTck fsx now cpuLimit memLimitBytes ps prev samples
         | Some tms \<Rightarrow>
             sampleAll allowed clkTck fsx now cpuLimit memLimitBytes ps
               (prev(p \<mapsto> \<lparr>jiffies = fst tms, ts = now\<rparr>))
               (samples @ [mkSample now cpuLimit memLimitBytes clkTck fsx p tms (prev p)])))"

definition survivingSamples ::
  "string option \<Rightarrow> string \<Rightarrow> int option \<Rightarrow> int \<Rightarrow> procfs \<Rightarrow> prevTimes \<Rightarrow>
   int \<Rightarrow> rat \<Rightarrow> int \<Rightarrow> sample list" where
  "survivingSamples envUids envMode getuid clkTck fsx prev now cpuLimit memLimitBytes =
     snd (sampleAll (buildAllowedUidSet envUids envMode getuid) clkTck fsx now cpuLimit
            memLimitBytes (readdir fsx) prev [])"

definition spec_listProcessSamples ::
  "string option \<Rightarrow> string \<Rightarrow> int option \<Rightarrow> int \<Rightarrow> int \<Rightarrow> procfs \<Rightarrow> prevTimes \<Rightarrow>
   int \<Rightarrow> rat \<Rightarrow> int \<Rightarrow> sample list" where
  "spec_listProcessSamples envUids envMode getuid procMax clkTck fsx prev now cpuLimit memLimitBytes =
     take (nat procMax)
       (sortBy cmpSamples
          (survivingSamples envUids envMode getuid clkTck fsx prev now cpuLimit memLimitBytes))"

section \<open>System probes\<close>

text \<open>
  The file system as one cycle sees it: \<open>files path\<close> is the text \<open>fs.readFile\<close>
  returns, \<open>None\<close> when it rejects.
\<close>

type_synonym files = "string \<Rightarrow> string option"

datatype cgroupVersion = V1 | V2

definition detectCgroupVersion :: "files \<Rightarrow> cgroupVersion" where
  "detectCgroupVersion fl =
     (case fl ''/proc/mounts'' of
        None \<Rightarrow> V1
      | Some mounts \<Rightarrow> if strIncludes ''cgroup2'' mounts then V2 else V1)"

definition readNumber :: "files \<Rightarrow> string \<Rightarrow> int" where
  "readNumber fl path =
     (case fl path of
        None \<Rightarrow> 0
      | Some v \<Rightarrow> (case parseInt (trim v) of None \<Rightarrow> 0 | Some n \<Rightarrow> n))"

text \<open>
  \<open>getCpuLimit\<close>. \<open>hostCpus\<close> is \<open>os.cpus().length\<close>. A comparison with \<open>NaN\<close> is false,
  so an unparsable quota or period falls through to the host count. In the v2 branch
  the second piece of the split is \<open>undefined\<close> when there is none, which parses to
  \<open>NaN\<close>.
\<close>

definition quotaOverPeriod :: "int option \<Rightarrow> int option \<Rightarrow> rat option" where
  "quotaOverPeriod quota period =
     (case quota of
        None \<Rightarrow> None
      | Some q \<Rightarrow>
          (case period of
             None \<Rightarrow> None
           | Some pe \<Rightarrow> if q > 0 \<and> pe > 0 then Some (of_int q / of_int pe) else None))"

definition getCpuLimit :: "files \<Rightarrow> nat \<Rightarrow> cgroupVersion \<Rightarrow> rat" where
  "getCpuLimit fl hostCpus version =
     (case version of
        V2 \<Rightarrow>
          (let cpuMax = (case fl ''/sys/fs/cgroup/cpu.max'' of None \<Rightarrow> [] | Some t \<Rightarrow> t)
           in if cpuMax \<noteq> [] then
                (let parts = split (CHR '' '') (trim cpuMax);
                     quota = (case parts of [] \<Rightarrow> None | quotaStr # _ \<Rightarrow> parseInt quotaStr);
                     period = (case parts of _ # periodStr # _ \<Rightarrow> parseInt periodStr | _ \<Rightarrow> None)
                 in case quotaOverPeriod quota period of
                      Some r \<Rightarrow> r
                    | None \<Rightarrow> of_nat hostCpus)
              else of_nat hostCpus)
      | V1 \<Rightarrow>
          (let quotaStr = (case fl ''/sys/fs/cgroup/cpu/cpu.cfs_quota_us'' of
                             None \<Rightarrow> ''0'' | Some t \<Rightarrow> t);
               periodStr = (case fl ''/sys/fs/cgroup/cpu/cpu.cfs_period_us'' of
                              None \<Rightarrow> ''100000'' | Some t \<Rightarrow> t);
               quota = parseInt (trim quotaStr);
               period = parseInt (trim periodStr)
           in case quotaOverPeriod quota period of
                Some r \<Rightarrow> r
              | None \<Rightarrow> of_nat hostCpus))"

text \<open>
  The regular expression \<open>/MemTotal:\s+(\d+)/\<close>: the first place where the word is
  followed by white space and then digits; the result is the run of digits.
\<close>

definition matchMemTotalHere :: "string \<Rightarrow> string option" where
  "matchMemTotalHere s =
     (if startsWith ''MemTotal:'' s then
        (let r = drop 9 s;
             d = takeWhile isDigit (dropWhile isWhiteSpace r)
         in if takeWhile isWhiteSpace r \<noteq> [] \<and> d \<noteq> [] then Some d else None)
      else None)"

fun matchMemTotal :: "string \<Rightarrow> string option" where
  "matchMemTotal [] = None"
| "matchMemTotal (x # xs) =
     (case matchMemTotalHere (x # xs) of Some d \<Rightarrow> Some d | None \<Rightarrow> matchMemTotal xs)"

text \<open>What can end a cycle early: the exception lands in the \<open>catch\<close> of \<open>collectMetrics\<close>.\<close>

datatype cycleError = RedisError | ReadError string

definition MAX_SAFE_INTEGER :: int where
  "MAX_SAFE_INTEGER = 9007199254740991"

text \<open>
  The block of \<open>collectMetrics\<close> under \<open>// Memory\<close>: the pair \<open>(memLimit, memUsage)\<close>.
  Only cgroup v2 replaces a missing or unlimited limit by the host's \<open>MemTotal\<close>, and it
  reads \<open>/proc/meminfo\<close> without catching.
\<close>

definition readMemory :: "files \<Rightarrow> cgroupVersion \<Rightarrow> cycleError + (int \<times> int)" where
  "readMemory fl version =
     (case version of
        V2 \<Rightarrow>
          (let memLimit = readNumber fl ''/sys/fs/cgroup/memory.max'';
               memUsage = readNumber fl ''/sys/fs/cgroup/memory.current''
           in if memLimit \<le> 0 \<or> memLimit = MAX_SAFE_INTEGER then
                (case fl ''/proc/meminfo'' of
                   None \<Rightarrow> Inl (ReadError ''/proc/meminfo'')
                 | Some meminfo \<Rightarrow>
                     (case matchMemTotal meminfo of
                        Some d \<Rightarrow> Inr (digitsVal d * 1024, memUsage)
                      | None \<Rightarrow> Inr (0, memUsage)))
              else Inr (memLimit, memUsage))
      | V1 \<Rightarrow>
          Inr (readNumber fl ''/sys/fs/cgroup/memory/memory.limit_in_bytes'',
               readNumber fl ''/sys/fs/cgroup/memory/memory.usage_in_bytes''))"

definition memPercentOf :: "int \<Rightarrow> int \<Rightarrow> rat" where
  "memPercentOf memLimit memUsage =
     (if memLimit > 0 then (of_int memUsage / of_int memLimit) * 100 else 0)"

text \<open>
  The block under \<open>// CPU (container)\<close>: the cumulative usage in nanoseconds. The v2
  read of \<open>cpu.stat\<close> is not caught.
\<close>

definition readUsageNs :: "files \<Rightarrow> cgroupVersion \<Rightarrow> cycleError + jsnum" where
  "readUsageNs fl version =
     (case version of
        V2 \<Rightarrow>
          (case fl ''/sys/fs/cgroup/cpu.stat'' of
             None \<Rightarrow> Inl (ReadError ''/sys/fs/cgroup/cpu.stat'')
           | Some stat \<Rightarrow>
               (case find (startsWith ''usage_usec'') (split (CHR 0x0A) stat) of
                  None \<Rightarrow> Inr (Fin 0)
                | Some usageLine \<Rightarrow>
                    (let usageUs = (case split (CHR '' '') usageLine of
                                      _ # field # _ \<Rightarrow> parseIntAuto field
                                    | _ \<Rightarrow> None)
                     in Inr (case usageUs of None \<Rightarrow> NaN | Some u \<Rightarrow> Fin (of_int u * 1000)))))
      | V1 \<Rightarrow> Inr (Fin (of_int (readNumber fl ''/sys/fs/cgroup/cpuacct/cpuacct.usage''))))"

text \<open>
  The container's CPU share: 0 unless both module variables of the previous cycle are
  set, then the ratio of the two differences, and in either case the clamp.
\<close>

definition cpuUsagePercentOf :: "jsnum \<Rightarrow> int \<Rightarrow> jsnum \<Rightarrow> int \<Rightarrow> rat \<Rightarrow> jsnum" where
  "cpuUsagePercentOf lastUsageNs lastTs usageNs now cpuLimit =
     (let raw =
        (if truthy lastUsageNs \<and> lastTs \<noteq> 0 then
           (let deltaUsage = jsSub usageNs lastUsageNs;
                deltaTimeNs = Fin (of_int (now - lastTs) * 1000000)
            in jsDiv (jsMul (jsDiv deltaUsage deltaTimeNs) (Fin 100))
                 (Fin (max cpuLimit (1 / 1000000))))
         else Fin 0)
      in jsMin (Fin 100) (jsMax (Fin 0) raw))"

text \<open>
  The block under \<open>// Storage\<close>. \<open>df path\<close> is what \<open>getDf(path)\<close> returns, the pair
  \<open>(total, used)\<close> in bytes or \<open>None\<close>.
\<close>

definition readStorage :: "(string \<Rightarrow> (int \<times> int) option) \<Rightarrow> int \<times> int" where
  "readStorage df =
     (let storage = (case df ''/config'' of None \<Rightarrow> df ''/'' | Some st \<Rightarrow> Some st)
      in case storage of None \<Rightarrow> (0, 0) | Some st \<Rightarrow> st)"

definition storagePercentOf :: "int \<Rightarrow> int \<Rightarrow> rat" where
  "storagePercentOf storageTotal storageUsed =
     (if storageTotal > 0 then (of_int storageUsed / of_int storageTotal) * 100 else 0)"

section \<open>Thresholds and webhooks\<close>

datatype resource = Cpu | Memory | Storage

fun resourceUpper :: "resource \<Rightarrow> string" where
  "resourceUpper Cpu = ''CPU''"
| "resourceUpper Memory = ''MEMORY''"
| "resourceUpper Storage = ''STORAGE''"

record thresholdSettings =
  cpu :: rat
  memory :: rat
  storage :: rat
  enabled :: bool

text \<open>
  A \<open>WebhookConfig\<close>; its fields \<open>name\<close>, \<open>method\<close> and \<open>enabled\<close> carry the prefix
  \<open>wh_\<close> here. The headers and the body template shape only the request that is sent.
\<close>

record webhookConfig =
  wh_name :: string
  url :: string
  wh_method :: string
  wh_enabled :: bool

record adminSettings =
  thresholds :: thresholdSettings
  webhooks :: "webhookConfig list"

text \<open>
  What one execution of a webhook meets: \<open>fetch\<close> resolves with a response of some
  status, or rejects with an error (time-out, DNS, refused connection, malformed
  request); and the clock and random readings that go into the entry.
\<close>

datatype fetchOutcome = Response int | Rejected string

record webhookRun =
  outcome :: fetchOutcome
  startTime :: int
  endTime :: int
  runId :: string
  runTimestamp :: int

record webhookHistoryEntry =
  entry_id :: string
  entry_timestamp :: int
  webhookName :: string
  webhookUrl :: string
  entry_method :: string
  statusCode :: "int option"
  success :: bool
  error :: "string option"
  reason :: string
  responseTime :: int

text \<open>\<open>response.ok\<close>: the status is in the range 200 to 299.\<close>

definition responseOk :: "int \<Rightarrow> bool" where
  "responseOk status = (200 \<le> status \<and> status \<le> 299)"

text \<open>
  \<open>executeWebhook\<close>: the entry handed to \<open>addWebhookHistory\<close>, which never throws. The
  first case is the end of the \<open>try\<close> block, the second the \<open>catch\<close>.
\<close>

definition executeWebhook :: "webhookConfig \<Rightarrow> string \<Rightarrow> webhookRun \<Rightarrow> webhookHistoryEntry" where
  "executeWebhook config rsn run =
     (case outcome run of
        Response status \<Rightarrow>
          \<lparr>entry_id = runId run,
           entry_timestamp = runTimestamp run,
           webhookName = wh_name config,
           webhookUrl = url config,
           entry_method = wh_method config,
           statusCode = Some status,
           success = responseOk status,
           error = None,
           reason = rsn,
           responseTime = endTime run - startTime run\<rparr>
      | Rejected message \<Rightarrow>
          \<lparr>entry_id = runId run,
           entry_timestamp = runTimestamp run,
           webhookName = wh_name config,
           webhookUrl = url config,
           entry_method = wh_method config,
           statusCode = None,
           success = False,
           error = Some message,
           reason = rsn,
           responseTime = endTime run - startTime run\<rparr>)"

text \<open>\<open>currentValue.toFixed(1)\<close>, which prints a non-finite number by its name.\<close>

fun toFixed1 :: "jsnum \<Rightarrow> string" where
  "toFixed1 (Fin r) = toFixed 1 r"
| "toFixed1 PInf = ''Infinity''"
| "toFixed1 NInf = ''-Infinity''"
| "toFixed1 NaN = ''NaN''"

text \<open>
  \<open>sendWebhookNotification\<close>: the entries recorded, one for each enabled webhook, in the
  order of the configuration. \<open>runs\<close> gives what each webhook's execution meets.
\<close>

definition sendWebhookNotification ::
  "adminSettings \<Rightarrow> (webhookConfig \<Rightarrow> webhookRun) \<Rightarrow> resource \<Rightarrow> jsnum \<Rightarrow> rat \<Rightarrow>
   webhookHistoryEntry list" where
  "sendWebhookNotification settings runs res currentValue threshold =
     (if \<not> enabled (thresholds settings) then []
      else
        map (\<lambda>webhook.
               executeWebhook webhook
                 (resourceUpper res @ '' threshold exceeded: '' @ toFixed1 currentValue @ ''%'')
                 (runs webhook))
          (filter wh_enabled (webhooks settings)))"

text \<open>
  The module's \<open>lastNotificationTime\<close>, a partial map on the three resources, and the
  cooldown in milliseconds.
\<close>

type_synonym lastNotification = "resource \<rightharpoonup> int"

definition NOTIFICATION_COOLDOWN :: int where
  "NOTIFICATION_COOLDOWN = 5 * 60 * 1000"

text \<open>
  What a threshold check has done so far: the map (\<open>lastTimes\<close>), the calls of
  \<open>sendWebhookNotification\<close> it made (resource, value, threshold), and the entries those
  calls recorded.
\<close>

record checkState =
  lastTimes :: lastNotification
  notified :: "(resource \<times> jsnum \<times> rat) list"
  recorded :: "webhookHistoryEntry list"

text \<open>
  One of the three blocks of \<open>checkThresholds\<close>, which differ in the resource only.
  \<open>lastNotificationTime.cpu || 0\<close> is 0 for a missing entry and for the entry 0.
\<close>

definition checkResource ::
  "adminSettings \<Rightarrow> (resource \<Rightarrow> webhookConfig \<Rightarrow> webhookRun) \<Rightarrow> int \<Rightarrow>
   resource \<Rightarrow> jsnum \<Rightarrow> rat \<Rightarrow> checkState \<Rightarrow> checkState" where
  "checkResource settings runs now res val threshold st =
     (if jsGe val (Fin threshold) then
        (let lastNotif = (case lastTimes st res of None \<Rightarrow> 0 | Some t \<Rightarrow> t)
         in if now - lastNotif \<ge> NOTIFICATION_COOLDOWN then
              \<lparr>lastTimes = (lastTimes st)(res \<mapsto> now),
               notified = notified st @ [(res, val, threshold)],
               recorded = recorded st
                 @ sendWebhookNotification settings (runs res) res val threshold\<rparr>
            else st)
      else st)"

text \<open>
  \<open>checkThresholds\<close>, with the settings it reads and its own reading \<open>now\<close> of the
  clock.
\<close>

definition checkThresholds ::
  "adminSettings \<Rightarrow> (resource \<Rightarrow> webhookConfig \<Rightarrow> webhookRun) \<Rightarrow> int \<Rightarrow>
   jsnum \<Rightarrow> jsnum \<Rightarrow> jsnum \<Rightarrow> lastNotification \<Rightarrow> checkState" where
  "checkThresholds settings runs now cpuVal memoryVal storageVal lnt =
     (let st0 = \<lparr>lastTimes = lnt, notified = [], recorded = []\<rparr>
      in if \<not> enabled (thresholds settings) then st0
         else
           checkResource settings runs now Storage storageVal (storage (thresholds settings))
             (checkResource settings runs now Memory memoryVal (memory (thresholds settings))
                (checkResource settings runs now Cpu cpuVal (cpu (thresholds settings)) st0)))"

section \<open>The collection cycle (\<open>collectMetrics\<close>)\<close>

text \<open>The module's variables, with their initial values.\<close>

record globals =
  lastCpuUsageNs :: jsnum
  lastTsContainer :: int
  prevProcTimes :: prevTimes
  CLK_TCK :: int
  PAGE_SIZE :: int
  lastNotificationTime :: lastNotification

definition initialGlobals :: globals where
  "initialGlobals =
     \<lparr>lastCpuUsageNs = Fin 0, lastTsContainer = 0, prevProcTimes = Map.empty,
      CLK_TCK = 100, PAGE_SIZE = 4096, lastNotificationTime = Map.empty\<rparr>"

text \<open>
  Everything one cycle reads from outside the module: whether Redis connects and
  stores, the output of the two \<open>getconf\<close> commands (\<open>None\<close> when \<open>exec\<close> fails), the
  files, the host's CPU count, \<open>Date.now()\<close>, the results of \<open>getDf\<close>, the \<open>/proc\<close>
  reads, the three environment variables and \<open>process.getuid\<close>, the stored settings,
  what each webhook execution meets, and the clock as \<open>checkThresholds\<close> reads it.
\<close>

record cycleEnv =
  redisConnects :: bool
  redisStores :: bool
  getconfClkTck :: "string option"
  getconfPageSize :: "string option"
  fileSystem :: files
  hostCpus :: nat
  dateNow :: int
  dfResult :: "string \<Rightarrow> (int \<times> int) option"
  procReads :: procfs
  rawProcUids :: "string option"
  rawProcMode :: "string option"
  rawProcMax :: "string option"
  getuidResult :: "int option"
  storedSettings :: adminSettings
  webhookRuns :: "resource \<Rightarrow> webhookConfig \<Rightarrow> webhookRun"
  checkNow :: int

definition sysConfValue :: "string option \<Rightarrow> int \<Rightarrow> int" where
  "sysConfValue stdout old =
     (case stdout of
        None \<Rightarrow> old
      | Some out \<Rightarrow>
          (case parseInt (trim out) of
             None \<Rightarrow> old
           | Some n \<Rightarrow> if n > 0 then n else old))"

definition ensureSysConf :: "cycleEnv \<Rightarrow> globals \<Rightarrow> globals" where
  "ensureSysConf env g =
     g\<lparr>CLK_TCK := sysConfValue (getconfClkTck env) (CLK_TCK g),
       PAGE_SIZE := sysConfValue (getconfPageSize env) (PAGE_SIZE g)\<rparr>"

text \<open>
  The object \<open>data\<close> stored under \<open>metrics:<now>\<close>, without \<open>uid_name_map\<close>. The fields of
  a process entry carry the prefix \<open>proc_\<close>.
\<close>

record processEntry =
  proc_pid :: int
  proc_uid :: "int option"
  proc_ppid :: int
  proc_command :: string
  proc_cpu_usage_percent :: "string option"
  proc_memory_usage_bytes :: int
  proc_memory_usage_percent :: "string option"

record snapshot =
  timestamp :: int
  cpu_limit :: rat
  cpu_usage_percent :: string
  memory_limit_bytes :: int
  memory_usage_bytes :: int
  memory_usage_percent :: string
  storage_total_bytes :: int
  storage_used_bytes :: int
  storage_usage_percent :: string
  processes :: "processEntry list"

definition processEntryOf :: "sample \<Rightarrow> processEntry" where
  "processEntryOf s =
     \<lparr>proc_pid = pid s,
      proc_uid = uid s,
      proc_ppid = ppid s,
      proc_command = command s,
      proc_cpu_usage_percent = map_option (toFixed 2) (cpu_percent s),
      proc_memory_usage_bytes = mem_bytes s,
      proc_memory_usage_percent = map_option (toFixed 2) (mem_percent s)\<rparr>"

text \<open>\<open>Number.isFinite(x) ? x.toFixed(2) : "0.00"\<close>.\<close>

definition fixed2OrZero :: "jsnum \<Rightarrow> string" where
  "fixed2OrZero x = (case x of Fin r \<Rightarrow> toFixed 2 r | _ \<Rightarrow> ''0.00'')"

text \<open>
  What a completed cycle leaves behind: the stored \<open>data\<close>, the locals it was built
  from (the three percentages are the arguments of \<open>checkThresholds\<close>), and what the
  threshold check did.
\<close>

record cycleOut =
  data :: snapshot
  cpuUsagePercent :: jsnum
  memPercent :: rat
  storagePercent :: rat
  samples :: "sample list"
  checked :: checkState

text \<open>
  \<open>collectMetrics\<close>: the module's variables after the cycle, and either the error that
  ended it in the \<open>catch\<close> or its results. The variables keep what was written before
  an error.
\<close>

definition collectMetrics :: "cycleEnv \<Rightarrow> globals \<Rightarrow> globals \<times> (cycleError + cycleOut)" where
  "collectMetrics env g =
     (if \<not> redisConnects env then (g, Inl RedisError)
      else
        (let g1 = ensureSysConf env g;
             version = detectCgroupVersion (fileSystem env)
         in case readMemory (fileSystem env) version of
              Inl e \<Rightarrow> (g1, Inl e)
            | Inr (memLimit, memUsage) \<Rightarrow>
                (case readUsageNs (fileSystem env) version of
                   Inl e \<Rightarrow> (g1, Inl e)
                 | Inr usageNs \<Rightarrow>
                     (let memPct = memPercentOf memLimit memUsage;
                          now = dateNow env;
                          cpuLimit = getCpuLimit (fileSystem env) (hostCpus env) version;
                          cpuPctC = cpuUsagePercentOf (lastCpuUsageNs g1) (lastTsContainer g1)
                                      usageNs now cpuLimit;
                          g2 = g1\<lparr>lastCpuUsageNs := usageNs, lastTsContainer := now\<rparr>;
                          st = readStorage (dfResult env);
                          stoPct = storagePercentOf (fst st) (snd st);
                          r = listProcessSamples (ENV_PROC_UIDS (rawProcUids env))
                                (ENV_PROC_MODE (rawProcMode env)) (getuidResult env)
                                (PROC_MAX (rawProcMax env)) (CLK_TCK g2) (procReads env)
                                (prevProcTimes g2) now cpuLimit memLimit;
                          g3 = g2\<lparr>prevProcTimes := fst r\<rparr>;
                          d = \<lparr>timestamp = now,
                               cpu_limit = cpuLimit,
                               cpu_usage_percent = fixed2OrZero cpuPctC,
                               memory_limit_bytes = memLimit,
                               memory_usage_bytes = memUsage,
                               memory_usage_percent = toFixed 2 memPct,
                               storage_total_bytes = fst st,
                               storage_used_bytes = snd st,
                               storage_usage_percent = toFixed 2 stoPct,
                               processes = map processEntryOf (snd r)\<rparr>
                      in if \<not> redisStores env then (g3, Inl RedisError)
                         else
                           (let c = checkThresholds (storedSettings env) (webhookRuns env) (checkNow env)
                                      cpuPctC (Fin memPct) (Fin stoPct) (lastNotificationTime g3)
                            in (g3\<lparr>lastNotificationTime := lastTimes c\<rparr>,
                                Inr \<lparr>data = d, cpuUsagePercent = cpuPctC, memPercent = memPct,
                                     storagePercent = stoPct, samples = snd r, checked = c\<rparr>))))))"

section \<open>Example inputs\<close>

text \<open>
  Two processes owned by root, both seen before; a third PID in the map has exited.
  With one core, 100 ticks per second and 5 seconds since the last cycle, PID 1 used
  2% and PID 2 used 10%.
\<close>

definition exampleProcfs :: procfs where
  "exampleProcfs =
     \<lparr>readdir = [1, 2],
      getPidUid = (\<lambda>p. Some 0),
      getPidCmdline = (\<lambda>p. ''sh''),
      getPidTimesAndPpid = (\<lambda>p. if p = 1 then Some (110, 0) else Some (250, 1)),
      getPidRssBytes = (\<lambda>p. 4096)\<rparr>"

definition examplePrev :: prevTimes where
  "examplePrev =
     [1 \<mapsto> \<lparr>jiffies = 100, ts = 0\<rparr>, 2 \<mapsto> \<lparr>jiffies = 200, ts = 0\<rparr>,
      3 \<mapsto> \<lparr>jiffies = 7, ts = 0\<rparr>]"

definition exampleSample :: sample where
  "exampleSample =
     \<lparr>pid = 1, uid = Some 0, ppid = 0, command = ''sh'', cpu_percent = Some 2,
      mem_bytes = 4096, mem_percent = None\<rparr>"

text \<open>
  A webhook that is enabled, and two executions of it: one answered with status 500,
  one answered with status 200.
\<close>

definition exampleWebhook :: webhookConfig where
  "exampleWebhook =
     \<lparr>wh_name = ''ops'', url = ''http://hooks.example/alert'', wh_method = ''POST'',
      wh_enabled = True\<rparr>"

definition exampleRun500 :: webhookRun where
  "exampleRun500 =
     \<lparr>outcome = Response 500, startTime = 1000, endTime = 1040, runId = ''1040-k3j9x0a2b'',
      runTimestamp = 1040\<rparr>"

definition exampleRun200 :: webhookRun where
  "exampleRun200 =
     \<lparr>outcome = Response 200, startTime = 1000, endTime = 1040, runId = ''1040-k3j9x0a2b'',
      runTimestamp = 1040\<rparr>"

text \<open>Thresholds enabled, each at 80, and the one webhook.\<close>

definition exampleSettings :: adminSettings where
  "exampleSettings =
     \<lparr>thresholds = \<lparr>cpu = 80, memory = 80, storage = 80, enabled = True\<rparr>,
      webhooks = [exampleWebhook]\<rparr>"

text \<open>
  A host without cgroup limits: the mount table names no \<open>cgroup2\<close>, no control file
  exists, and \<open>/proc/meminfo\<close> reports 8000000 kB.
\<close>

definition exampleHostFiles :: files where
  "exampleHostFiles =
     (\<lambda>path. if path = ''/proc/mounts'' then Some ''proc /proc proc rw 0 0''
             else if path = ''/proc/meminfo'' then Some ''MemTotal:       8000000 kB''
             else None)"

text \<open>
  A cgroup v2 container limited to 2 cores and 100 MiB, holding 200 MiB after the limit
  was lowered, with 2.1 seconds of CPU time used so far.
\<close>

definition exampleV2Files :: files where
  "exampleV2Files =
     (\<lambda>path. if path = ''/proc/mounts'' then Some ''cgroup2 /sys/fs/cgroup cgroup2 rw 0 0''
             else if path = ''/sys/fs/cgroup/cpu.max'' then Some ''200000 100000''
             else if path = ''/sys/fs/cgroup/cpu.stat'' then Some ''usage_usec 2100000''
             else if path = ''/sys/fs/cgroup/memory.max'' then Some ''104857600''
             else if path = ''/sys/fs/cgroup/memory.current'' then Some ''209715200''
             else None)"

text \<open>
  A cycle in that container at time 1700000010000 (threshold check 10 ms later), and
  the module's variables as a cycle 5 seconds earlier left them, at 2.0 seconds of CPU
  time.
\<close>

definition exampleEnv :: cycleEnv where
  "exampleEnv =
     \<lparr>redisConnects = True,
      redisStores = True,
      getconfClkTck = Some ''100'',
      getconfPageSize = Some ''4096'',
      fileSystem = exampleV2Files,
      hostCpus = 4,
      dateNow = 1700000010000,
      dfResult = (\<lambda>path. if path = ''/config'' then None else Some (1000, 400)),
      procReads = exampleProcfs,
      rawProcUids = None,
      rawProcMode = None,
      rawProcMax = None,
      getuidResult = Some 0,
      storedSettings = exampleSettings,
      webhookRuns = (\<lambda>res webhook. exampleRun500),
      checkNow = 1700000010010\<rparr>"

definition exampleGlobals :: globals where
  "exampleGlobals =
     \<lparr>lastCpuUsageNs = Fin 2000000000, lastTsContainer = 1700000005000,
      prevProcTimes = [1 \<mapsto> \<lparr>jiffies = 100, ts = 1700000005000\<rparr>,
                       2 \<mapsto> \<lparr>jiffies = 200, ts = 1700000005000\<rparr>],
      CLK_TCK = 100, PAGE_SIZE = 4096, lastNotificationTime = Map.empty\<rparr>"

text \<open>The same cycle on the host without cgroup limits.\<close>

definition exampleHostEnv :: cycleEnv where
  "exampleHostEnv = exampleEnv\<lparr>fileSystem := exampleHostFiles\<rparr>"

section \<open>Helper lemmas\<close>

lemma addUids_set:
  "addUids parts s0 = s0 \<union> {n. \<exists>p \<in> set parts. parseInt p = Some n}"
  unfolding addUids_def
  by (induction parts arbitrary: s0) (auto split: option.splits)

lemma uidParts_example: "uidParts ''5, 7,7'' = [''5'', ''7'', ''7'']"
  by code_simp

lemma parseInt_examples: "parseInt ''5'' = Some 5" "parseInt ''7'' = Some 7"
  by code_simp+

lemma PROC_MAX_ge_1: "1 \<le> PROC_MAX raw"
  by (simp add: PROC_MAX_def Let_def)

subsection \<open>The sampling loop\<close>

lemma sampleAll_prefix:
  "\<exists>ys. snd (sampleAll allowed clkTck fsx now cpuLimit memLimitBytes pids prev acc) = acc @ ys"
proof (induction pids arbitrary: prev acc)
  case Nil
  then show ?case by simp
next
  case (Cons p ps)
  show ?case
  proof (cases "uidPasses allowed (getPidUid fsx p)")
    case False
    then show ?thesis using Cons.IH [of prev acc] by simp
  next
    case True
    show ?thesis
    proof (cases "getPidTimesAndPpid fsx p")
      case None
      then show ?thesis using True Cons.IH [of prev acc] by simp
    next
      case (Some tms)
      let ?s = "mkSample now cpuLimit memLimitBytes clkTck fsx p tms (prev p)"
      let ?prev = "prev(p \<mapsto> \<lparr>jiffies = fst tms, ts = now\<rparr>)"
      have step: "sampleAll allowed clkTck fsx now cpuLimit memLimitBytes (p # ps) prev acc =
                  sampleAll allowed clkTck fsx now cpuLimit memLimitBytes ps ?prev (acc @ [?s])"
        using True Some by simp
      obtain ys where "snd (sampleAll allowed clkTck fsx now cpuLimit memLimitBytes ps ?prev (acc @ [?s])) = (acc @ [?s]) @ ys"
        using Cons.IH [of ?prev "acc @ [?s]"] by blast
      then have "snd (sampleAll allowed clkTck fsx now cpuLimit memLimitBytes (p # ps) prev acc) = acc @ (?s # ys)"
        unfolding step by simp
      then show ?thesis by blast
    qed
  qed
qed

lemma sampleLoop_take:
  "1 \<le> procMax \<Longrightarrow> int (length acc) < procMax \<Longrightarrow>
   snd (sampleLoop allowed procMax clkTck fsx now cpuLimit memLimitBytes pids prev acc) =
   take (nat procMax) (snd (sampleAll allowed clkTck fsx now cpuLimit memLimitBytes pids prev acc))"
proof (induction pids arbitrary: prev acc)
  case Nil
  then show ?case by simp
next
  case (Cons p ps)
  show ?case
  proof (cases "uidPasses allowed (getPidUid fsx p)")
    case False
    then show ?thesis using Cons.IH [OF Cons.prems, of prev] by simp
  next
    case True
    show ?thesis
    proof (cases "getPidTimesAndPpid fsx p")
      case None
      then show ?thesis using True Cons.IH [OF Cons.prems, of prev] by simp
    next
      case (Some tms)
      let ?s = "mkSample now cpuLimit memLimitBytes clkTck fsx p tms (prev p)"
      let ?prev = "prev(p \<mapsto> \<lparr>jiffies = fst tms, ts = now\<rparr>)"
      have stepA: "sampleAll allowed clkTck fsx now cpuLimit memLimitBytes (p # ps) prev acc =
                  sampleAll allowed clkTck fsx now cpuLimit memLimitBytes ps ?prev (acc @ [?s])"
        using True Some by simp
      show ?thesis
      proof (cases "int (length (acc @ [?s])) \<ge> procMax")
        case full: True
        have stepL: "sampleLoop allowed procMax clkTck fsx now cpuLimit memLimitBytes (p # ps) prev acc =
                     (?prev, acc @ [?s])"
          using True Some full by (simp add: Let_def)
        obtain ys where ys: "snd (sampleAll allowed clkTck fsx now cpuLimit memLimitBytes ps ?prev (acc @ [?s])) = (acc @ [?s]) @ ys"
          using sampleAll_prefix by blast
        have len: "length (acc @ [?s]) = nat procMax" using full Cons.prems by simp
        have "take (nat procMax) ((acc @ [?s]) @ ys) = acc @ [?s]"
          using len by (metis append_eq_conv_conj)
        then show ?thesis unfolding stepL stepA ys by simp
      next
        case notfull: False
        have stepL: "sampleLoop allowed procMax clkTck fsx now cpuLimit memLimitBytes (p # ps) prev acc =
                     sampleLoop allowed procMax clkTck fsx now cpuLimit memLimitBytes ps ?prev (acc @ [?s])"
          using True Some notfull by (simp add: Let_def)
        from notfull have "int (length (acc @ [?s])) < procMax" by simp
        from Cons.IH [OF Cons.prems(1) this, of ?prev]
        show ?thesis unfolding stepL stepA .
      qed
    qed
  qed
qed

lemma sampleLoop_members:
  "distinct pids \<Longrightarrow>
   s \<in> set (snd (sampleLoop allowed procMax clkTck fsx now cpuLimit memLimitBytes pids prev acc)) \<Longrightarrow>
   s \<in> set acc \<or>
   (pid s \<in> set pids \<and> uidPasses allowed (getPidUid fsx (pid s)) \<and>
    (\<exists>tms. getPidTimesAndPpid fsx (pid s) = Some tms \<and>
           s = mkSample now cpuLimit memLimitBytes clkTck fsx (pid s) tms (prev (pid s))))"
proof (induction pids arbitrary: prev acc)
  case Nil
  then show ?case by simp
next
  case (Cons p ps)
  have dps: "distinct ps" and pnot: "p \<notin> set ps" using Cons.prems(1) by auto
  show ?case
  proof (cases "uidPasses allowed (getPidUid fsx p)")
    case False
    then show ?thesis using Cons.IH [OF dps, of prev acc] Cons.prems(2) by auto
  next
    case True
    show ?thesis
    proof (cases "getPidTimesAndPpid fsx p")
      case None
      then show ?thesis using True Cons.IH [OF dps, of prev acc] Cons.prems(2) by auto
    next
      case (Some tms)
      let ?s = "mkSample now cpuLimit memLimitBytes clkTck fsx p tms (prev p)"
      let ?prev = "prev(p \<mapsto> \<lparr>jiffies = fst tms, ts = now\<rparr>)"
      have pid_s: "pid ?s = p" by (simp add: mkSample_def)
      have here: "s = ?s \<Longrightarrow> ?thesis"
      proof -
        assume e: "s = ?s"
        then have ps: "pid s = p" using pid_s by simp
        have "getPidTimesAndPpid fsx (pid s) = Some tms \<and>
              s = mkSample now cpuLimit memLimitBytes clkTck fsx (pid s) tms (prev (pid s))"
          using e Some unfolding ps by simp
        then have "\<exists>tms. getPidTimesAndPpid fsx (pid s) = Some tms \<and>
              s = mkSample now cpuLimit memLimitBytes clkTck fsx (pid s) tms (prev (pid s))"
          by blast
        moreover have "pid s \<in> set (p # ps)" using ps by simp
        moreover have "uidPasses allowed (getPidUid fsx (pid s))" using True ps by simp
        ultimately show ?thesis by blast
      qed
      show ?thesis
      proof (cases "int (length (acc @ [?s])) \<ge> procMax")
        case full: True
        have stepL: "sampleLoop allowed procMax clkTck fsx now cpuLimit memLimitBytes (p # ps) prev acc =
                     (?prev, acc @ [?s])"
          using True Some full by (simp add: Let_def)
        have "s \<in> set (acc @ [?s])" using Cons.prems(2) unfolding stepL by simp
        then show ?thesis using here by auto
      next
        case notfull: False
        have stepL: "sampleLoop allowed procMax clkTck fsx now cpuLimit memLimitBytes (p # ps) prev acc =
                     sampleLoop allowed procMax clkTck fsx now cpuLimit memLimitBytes ps ?prev (acc @ [?s])"
          using True Some notfull by (simp add: Let_def)
        have "s \<in> set (snd (sampleLoop allowed procMax clkTck fsx now cpuLimit memLimitBytes ps ?prev (acc @ [?s])))"
          using Cons.prems(2) unfolding stepL .
        from Cons.IH [OF dps this]
        show ?thesis
        proof
          assume "s \<in> set (acc @ [?s])"
          then show ?thesis using here by auto
        next
          assume a: "pid s \<in> set ps \<and> uidPasses allowed (getPidUid fsx (pid s)) \<and>
            (\<exists>tms. getPidTimesAndPpid fsx (pid s) = Some tms \<and>
              s = mkSample now cpuLimit memLimitBytes clkTck fsx (pid s) tms (?prev (pid s)))"
          then have "pid s \<noteq> p" using pnot by auto
          then have "?prev (pid s) = prev (pid s)" by simp
          then show ?thesis using a by auto
        qed
      qed
    qed
  qed
qed

lemma mset_insortBy: "mset (insortBy cmp x ys) = add_mset x (mset ys)"
  by (induction ys) auto

lemma mset_sortBy: "mset (sortBy cmp xs) = mset xs"
  unfolding sortBy_def by (induction xs) (auto simp: mset_insortBy)

lemma set_sortBy: "set (sortBy cmp xs) = set xs"
  using mset_sortBy by (metis set_mset_mset)

lemma length_sortBy: "length (sortBy cmp xs) = length xs"
  using mset_sortBy by (metis size_mset)

lemma cmpSamples_total: "cmpSamples a b \<le> 0 \<or> cmpSamples b a \<le> 0"
  by (auto simp: cmpSamples_def Let_def split: option.splits)

lemma cmpSamples_trans: "cmpSamples a b \<le> 0 \<Longrightarrow> cmpSamples b c \<le> 0 \<Longrightarrow> cmpSamples a c \<le> 0"
  by (auto simp: cmpSamples_def Let_def split: option.splits if_splits)

lemma sorted_insortBy:
  "sorted_wrt (\<lambda>a b. cmpSamples a b \<le> 0) ys \<Longrightarrow>
   sorted_wrt (\<lambda>a b. cmpSamples a b \<le> 0) (insortBy cmpSamples x ys)"
proof (induction ys)
  case Nil
  then show ?case by simp
next
  case (Cons y ys)
  show ?case
  proof (cases "cmpSamples x y \<le> 0")
    case True
    then show ?thesis using Cons.prems cmpSamples_trans by auto
  next
    case False
    then have yx: "cmpSamples y x \<le> 0" using cmpSamples_total by blast
    have "set (insortBy cmpSamples x ys) = insert x (set ys)"
      by (metis mset_insortBy set_mset_mset set_mset_add_mset_insert)
    then show ?thesis using False yx Cons by auto
  qed
qed

lemma sorted_sortBy: "sorted_wrt (\<lambda>a b. cmpSamples a b \<le> 0) (sortBy cmpSamples xs)"
  unfolding sortBy_def by (induction xs) (auto simp: sorted_insortBy)

lemma cpuPct_cases:
  "cpuPct now cpuLimit clkTck jif prev =
     (case prev of
        None \<Rightarrow> None
      | Some pr \<Rightarrow>
          if of_int (now - ts pr) / (1000::rat) \<le> 0 then None
          else Some (min 100 (max 0
                 (of_int (jif - jiffies pr) / of_int clkTck / (of_int (now - ts pr) / 1000)
                    * 100 / max cpuLimit (1 / 1000000)))))"
  by (simp add: cpuPct_def Let_def not_le mult.assoc split: option.splits)

lemma listProcessSamples_members:
  assumes "distinct (readdir fsx)"
    and "s \<in> set (snd (listProcessSamples envUids envMode getuid procMax clkTck fsx prev now cpuLimit memLimitBytes))"
  shows "pid s \<in> set (readdir fsx) \<and>
     (\<exists>tms. getPidTimesAndPpid fsx (pid s) = Some tms \<and>
            s = mkSample now cpuLimit memLimitBytes clkTck fsx (pid s) tms (prev (pid s)))"
proof -
  from assms(2) have "s \<in> set (snd (sampleLoop (buildAllowedUidSet envUids envMode getuid) procMax clkTck fsx now
           cpuLimit memLimitBytes (readdir fsx) prev []))"
    by (simp add: listProcessSamples_def Let_def set_sortBy)
  from sampleLoop_members [OF assms(1) this] show ?thesis by auto
qed

lemma sampleLoop_untouched:
  "q \<notin> set pids \<Longrightarrow>
   fst (sampleLoop allowed procMax clkTck fsx now cpuLimit memLimitBytes pids prev acc) q = prev q"
proof (induction pids arbitrary: prev acc)
  case Nil
  then show ?case by simp
next
  case (Cons p ps)
  then have q: "q \<noteq> p" "q \<notin> set ps" by auto
  show ?case
  proof (cases "uidPasses allowed (getPidUid fsx p)")
    case False
    then show ?thesis using Cons.IH [OF q(2), of prev acc] by simp
  next
    case True
    show ?thesis
    proof (cases "getPidTimesAndPpid fsx p")
      case None
      then show ?thesis using True Cons.IH [OF q(2), of prev acc] by simp
    next
      case (Some tms)
      let ?s = "mkSample now cpuLimit memLimitBytes clkTck fsx p tms (prev p)"
      let ?prev = "prev(p \<mapsto> \<lparr>jiffies = fst tms, ts = now\<rparr>)"
      have pq: "?prev q = prev q" using q(1) by simp
      show ?thesis
      proof (cases "int (length (acc @ [?s])) \<ge> procMax")
        case full: True
        have stepL: "sampleLoop allowed procMax clkTck fsx now cpuLimit memLimitBytes (p # ps) prev acc =
                     (?prev, acc @ [?s])"
          using True Some full by (simp add: Let_def)
        show ?thesis unfolding stepL using pq by simp
      next
        case notfull: False
        have stepL: "sampleLoop allowed procMax clkTck fsx now cpuLimit memLimitBytes (p # ps) prev acc =
                     sampleLoop allowed procMax clkTck fsx now cpuLimit memLimitBytes ps ?prev (acc @ [?s])"
          using True Some notfull by (simp add: Let_def)
        have "fst (sampleLoop allowed procMax clkTck fsx now cpuLimit memLimitBytes ps ?prev (acc @ [?s])) q
                = ?prev q"
          by (rule Cons.IH [OF q(2)])
        also have "\<dots> = prev q" by (rule pq)
        finally show ?thesis unfolding stepL .
      qed
    qed
  qed
qed

lemma sampleLoop_records:
  "distinct pids \<Longrightarrow>
   s \<in> set (snd (sampleLoop allowed procMax clkTck fsx now cpuLimit memLimitBytes pids prev acc)) \<Longrightarrow>
   s \<in> set acc \<or>
   (\<exists>tms. getPidTimesAndPpid fsx (pid s) = Some tms \<and>
      fst (sampleLoop allowed procMax clkTck fsx now cpuLimit memLimitBytes pids prev acc) (pid s)
        = Some \<lparr>jiffies = fst tms, ts = now\<rparr>)"
proof (induction pids arbitrary: prev acc)
  case Nil
  then show ?case by simp
next
  case (Cons p ps)
  have dps: "distinct ps" and pnot: "p \<notin> set ps" using Cons.prems(1) by auto
  show ?case
  proof (cases "uidPasses allowed (getPidUid fsx p)")
    case False
    then show ?thesis using Cons.IH [OF dps, of prev acc] Cons.prems(2) by simp
  next
    case True
    show ?thesis
    proof (cases "getPidTimesAndPpid fsx p")
      case None
      then show ?thesis using True Cons.IH [OF dps, of prev acc] Cons.prems(2) by simp
    next
      case (Some tms)
      let ?s = "mkSample now cpuLimit memLimitBytes clkTck fsx p tms (prev p)"
      let ?prev = "prev(p \<mapsto> \<lparr>jiffies = fst tms, ts = now\<rparr>)"
      have pid_s: "pid ?s = p" by (simp add: mkSample_def)
      show ?thesis
      proof (cases "int (length (acc @ [?s])) \<ge> procMax")
        case full: True
        have stepL: "sampleLoop allowed procMax clkTck fsx now cpuLimit memLimitBytes (p # ps) prev acc =
                     (?prev, acc @ [?s])"
          using True Some full by (simp add: Let_def)
        have "s \<in> set acc \<or> s = ?s" using Cons.prems(2) unfolding stepL by auto
        then show ?thesis
        proof
          assume "s \<in> set acc" then show ?thesis by simp
        next
          assume "s = ?s"
          then have "pid s = p" using pid_s by simp
          then have "getPidTimesAndPpid fsx (pid s) = Some tms \<and>
             fst (sampleLoop allowed procMax clkTck fsx now cpuLimit memLimitBytes (p # ps) prev acc) (pid s)
               = Some \<lparr>jiffies = fst tms, ts = now\<rparr>"
            unfolding stepL using Some by simp
          then show ?thesis by blast
        qed
      next
        case notfull: False
        have stepL: "sampleLoop allowed procMax clkTck fsx now cpuLimit memLimitBytes (p # ps) prev acc =
                     sampleLoop allowed procMax clkTck fsx now cpuLimit memLimitBytes ps ?prev (acc @ [?s])"
          using True Some notfull by (simp add: Let_def)
        have "s \<in> set (snd (sampleLoop allowed procMax clkTck fsx now cpuLimit memLimitBytes ps ?prev (acc @ [?s])))"
          using Cons.prems(2) unfolding stepL .
        from Cons.IH [OF dps this]
        have ih: "s \<in> set (acc @ [?s]) \<or>
          (\<exists>tms. getPidTimesAndPpid fsx (pid s) = Some tms \<and>
            fst (sampleLoop allowed procMax clkTck fsx now cpuLimit memLimitBytes ps ?prev (acc @ [?s])) (pid s)
              = Some \<lparr>jiffies = fst tms, ts = now\<rparr>)" .
        show ?thesis
        proof (cases "s \<in> set acc")
          case True
          then show ?thesis by simp
        next
          case notacc: False
          show ?thesis
          proof (cases "s = ?s")
            case True
            then have ps: "pid s = p" using pid_s by simp
            have "fst (sampleLoop allowed procMax clkTck fsx now cpuLimit memLimitBytes ps ?prev (acc @ [?s])) p
                   = ?prev p"
              by (rule sampleLoop_untouched [OF pnot])
            also have "\<dots> = Some \<lparr>jiffies = fst tms, ts = now\<rparr>" by simp
            finally have "getPidTimesAndPpid fsx (pid s) = Some tms \<and>
               fst (sampleLoop allowed procMax clkTck fsx now cpuLimit memLimitBytes (p # ps) prev acc) (pid s)
                 = Some \<lparr>jiffies = fst tms, ts = now\<rparr>"
              unfolding stepL ps using Some by simp
            then show ?thesis by blast
          next
            case False
            with notacc have "s \<notin> set (acc @ [?s])" by simp
            with ih have "\<exists>tms. getPidTimesAndPpid fsx (pid s) = Some tms \<and>
              fst (sampleLoop allowed procMax clkTck fsx now cpuLimit memLimitBytes ps ?prev (acc @ [?s])) (pid s)
                = Some \<lparr>jiffies = fst tms, ts = now\<rparr>" by blast
            then show ?thesis unfolding stepL by blast
          qed
        qed
      qed
    qed
  qed
qed

lemma listProcessSamples_records:
  assumes "distinct (readdir fsx)"
    and "s \<in> set (snd (listProcessSamples envUids envMode gu procMax clkTck fsx prev now cpuLimit memLimitBytes))"
  shows "\<exists>tms. getPidTimesAndPpid fsx (pid s) = Some tms \<and>
     fst (listProcessSamples envUids envMode gu procMax clkTck fsx prev now cpuLimit memLimitBytes) (pid s)
       = Some \<lparr>jiffies = fst tms, ts = now\<rparr>"
proof -
  let ?r = "sampleLoop (buildAllowedUidSet envUids envMode gu) procMax clkTck fsx now
           cpuLimit memLimitBytes (readdir fsx) prev []"
  from assms(2) have m: "s \<in> set (snd ?r)"
    by (simp add: listProcessSamples_def Let_def set_sortBy)
  from sampleLoop_members [OF assms(1) m] have inl: "pid s \<in> set (readdir fsx)" by simp
  from sampleLoop_records [OF assms(1) m] obtain tms where
    t: "getPidTimesAndPpid fsx (pid s) = Some tms"
    and f: "fst ?r (pid s) = Some \<lparr>jiffies = fst tms, ts = now\<rparr>" by auto
  have "fst (listProcessSamples envUids envMode gu procMax clkTck fsx prev now cpuLimit memLimitBytes) (pid s)
       = fst ?r (pid s)"
    using inl by (simp add: listProcessSamples_def Let_def cleanup_def)
  with t f show ?thesis by simp
qed

subsection \<open>The clock ticks stay positive\<close>

lemma ensureSysConf_CLK_TCK_pos: "0 < CLK_TCK g \<Longrightarrow> 0 < CLK_TCK (ensureSysConf env g)"
  by (simp add: ensureSysConf_def sysConfValue_def split: option.splits)

lemma collectMetrics_CLK_TCK_pos: "0 < CLK_TCK g \<Longrightarrow> 0 < CLK_TCK (fst (collectMetrics env g))"
  using ensureSysConf_CLK_TCK_pos [of g env]
  by (simp add: collectMetrics_def Let_def ensureSysConf_def split: sum.splits prod.splits)

lemma initialGlobals_CLK_TCK_pos: "0 < CLK_TCK initialGlobals"
  by (simp add: initialGlobals_def)

subsection \<open>Clamps\<close>

lemma clamp_range:
  "jsMin (Fin 100) (jsMax (Fin 0) x) = NaN \<or>
   (\<exists>r. jsMin (Fin 100) (jsMax (Fin 0) x) = Fin r \<and> 0 \<le> r \<and> r \<le> 100)"
  by (cases x) auto

lemma cpuUsagePercentOf_range:
  "cpuUsagePercentOf lastUsageNs lastTs usageNs now cpuLimit = NaN \<or>
   (\<exists>r. cpuUsagePercentOf lastUsageNs lastTs usageNs now cpuLimit = Fin r \<and> 0 \<le> r \<and> r \<le> 100)"
  unfolding cpuUsagePercentOf_def Let_def by (rule clamp_range)

lemma cpuUsagePercentOf_first:
  "\<not> (truthy lastUsageNs \<and> lastTs \<noteq> 0) \<Longrightarrow>
   cpuUsagePercentOf lastUsageNs lastTs usageNs now cpuLimit = Fin 0"
  by (auto simp: cpuUsagePercentOf_def)

lemma fixed2OrZero_range:
  "x = NaN \<or> (\<exists>r. x = Fin r \<and> 0 \<le> r \<and> r \<le> 100) \<Longrightarrow>
   \<exists>r. 0 \<le> r \<and> r \<le> 100 \<and> fixed2OrZero x = toFixed 2 r"
proof -
  have z: "toFixed 2 0 = ''0.00''" by code_simp
  assume "x = NaN \<or> (\<exists>r. x = Fin r \<and> 0 \<le> r \<and> r \<le> 100)"
  then show ?thesis
  proof
    assume "x = NaN"
    then have "fixed2OrZero x = toFixed 2 0" by (simp add: fixed2OrZero_def z)
    then show ?thesis by (intro exI [of _ 0]) simp
  next
    assume "\<exists>r. x = Fin r \<and> 0 \<le> r \<and> r \<le> 100"
    then obtain r where "x = Fin r" "0 \<le> r" "r \<le> 100" by blast
    then show ?thesis by (intro exI [of _ r]) (simp add: fixed2OrZero_def)
  qed
qed

lemma cpuPct_range: "cpuPct now cpuLimit clkTck jif prev = Some v \<Longrightarrow> 0 \<le> v \<and> v \<le> 100"
  by (auto simp: cpuPct_def Let_def split: option.splits if_splits)

lemma cpuPct_same_time:
  "prev = None \<or> (\<exists>pr. prev = Some pr \<and> ts pr = now) \<Longrightarrow> cpuPct now cpuLimit clkTck jif prev = None"
  by (auto simp: cpuPct_def Let_def)

lemma memPercentOf_range:
  "0 \<le> memUsage \<Longrightarrow> memUsage \<le> memLimit \<Longrightarrow>
   0 \<le> memPercentOf memLimit memUsage \<and> memPercentOf memLimit memUsage \<le> 100"
  by (auto simp: memPercentOf_def divide_le_eq)

lemma storagePercentOf_range:
  "0 \<le> storageUsed \<Longrightarrow> storageUsed \<le> storageTotal \<Longrightarrow>
   0 \<le> storagePercentOf storageTotal storageUsed \<and> storagePercentOf storageTotal storageUsed \<le> 100"
  by (auto simp: storagePercentOf_def divide_le_eq)

subsection \<open>Samples of the loop, whatever the listing\<close>

lemma sampleLoop_shape:
  "s \<in> set (snd (sampleLoop allowed procMax clkTck fsx now cpuLimit memLimitBytes pids prev acc)) \<Longrightarrow>
   s \<in> set acc \<or>
   (\<exists>p tms pr. s = mkSample now cpuLimit memLimitBytes clkTck fsx p tms pr)"
proof (induction pids arbitrary: prev acc)
  case Nil
  then show ?case by simp
next
  case (Cons p ps)
  show ?case
  proof (cases "uidPasses allowed (getPidUid fsx p)")
    case False
    then show ?thesis using Cons.IH [of prev acc] Cons.prems by simp
  next
    case True
    show ?thesis
    proof (cases "getPidTimesAndPpid fsx p")
      case None
      then show ?thesis using True Cons.IH [of prev acc] Cons.prems by simp
    next
      case (Some tms)
      let ?s = "mkSample now cpuLimit memLimitBytes clkTck fsx p tms (prev p)"
      let ?prev = "prev(p \<mapsto> \<lparr>jiffies = fst tms, ts = now\<rparr>)"
      have here: "\<exists>q tq pr. ?s = mkSample now cpuLimit memLimitBytes clkTck fsx q tq pr"
        by blast
      show ?thesis
      proof (cases "int (length (acc @ [?s])) \<ge> procMax")
        case full: True
        have stepL: "sampleLoop allowed procMax clkTck fsx now cpuLimit memLimitBytes (p # ps) prev acc =
                     (?prev, acc @ [?s])"
          using True Some full by (simp add: Let_def)
        have "s \<in> set acc \<or> s = ?s" using Cons.prems unfolding stepL by auto
        then show ?thesis using here by blast
      next
        case notfull: False
        have stepL: "sampleLoop allowed procMax clkTck fsx now cpuLimit memLimitBytes (p # ps) prev acc =
                     sampleLoop allowed procMax clkTck fsx now cpuLimit memLimitBytes ps ?prev (acc @ [?s])"
          using True Some notfull by (simp add: Let_def)
        have "s \<in> set (snd (sampleLoop allowed procMax clkTck fsx now cpuLimit memLimitBytes ps ?prev (acc @ [?s])))"
          using Cons.prems unfolding stepL .
        from Cons.IH [OF this]
        have "s \<in> set acc \<or> s = ?s \<or>
              (\<exists>p tms pr. s = mkSample now cpuLimit memLimitBytes clkTck fsx p tms pr)"
          by auto
        then show ?thesis using here by blast
      qed
    qed
  qed
qed

lemma listProcessSamples_shape:
  "s \<in> set (snd (listProcessSamples envUids envMode gu procMax clkTck fsx prev now cpuLimit memLimitBytes)) \<Longrightarrow>
   \<exists>p tms pr. s = mkSample now cpuLimit memLimitBytes clkTck fsx p tms pr"
  using sampleLoop_shape [of s "buildAllowedUidSet envUids envMode gu" procMax clkTck fsx now cpuLimit
      memLimitBytes "readdir fsx" prev "[]"]
  by (simp add: listProcessSamples_def Let_def set_sortBy)

lemma sampleLoop_first_cycle:
  "\<forall>p pr. prev p = Some pr \<longrightarrow> ts pr = now \<Longrightarrow>
   \<forall>s \<in> set acc. cpu_percent s = None \<Longrightarrow>
   \<forall>s \<in> set (snd (sampleLoop allowed procMax clkTck fsx now cpuLimit memLimitBytes pids prev acc)).
      cpu_percent s = None"
proof (induction pids arbitrary: prev acc)
  case Nil
  then show ?case by simp
next
  case (Cons p ps)
  show ?case
  proof (cases "uidPasses allowed (getPidUid fsx p)")
    case False
    then show ?thesis using Cons.IH [OF Cons.prems] by simp
  next
    case True
    show ?thesis
    proof (cases "getPidTimesAndPpid fsx p")
      case None
      then show ?thesis using True Cons.IH [OF Cons.prems] by simp
    next
      case (Some tms)
      let ?s = "mkSample now cpuLimit memLimitBytes clkTck fsx p tms (prev p)"
      let ?prev = "prev(p \<mapsto> \<lparr>jiffies = fst tms, ts = now\<rparr>)"
      have "prev p = None \<or> (\<exists>pr. prev p = Some pr \<and> ts pr = now)"
        using Cons.prems(1) by (cases "prev p") auto
      then have sn: "cpu_percent ?s = None"
        by (simp add: mkSample_def cpuPct_same_time)
      have a: "\<forall>s \<in> set (acc @ [?s]). cpu_percent s = None"
        using Cons.prems(2) sn by auto
      have b: "\<forall>q pr. ?prev q = Some pr \<longrightarrow> ts pr = now"
        using Cons.prems(1) by auto
      show ?thesis
      proof (cases "int (length (acc @ [?s])) \<ge> procMax")
        case full: True
        have stepL: "sampleLoop allowed procMax clkTck fsx now cpuLimit memLimitBytes (p # ps) prev acc =
                     (?prev, acc @ [?s])"
          using True Some full by (simp add: Let_def)
        show ?thesis unfolding stepL using a by simp
      next
        case notfull: False
        have stepL: "sampleLoop allowed procMax clkTck fsx now cpuLimit memLimitBytes (p # ps) prev acc =
                sampleLoop allowed procMax clkTck fsx now cpuLimit memLimitBytes ps ?prev (acc @ [?s])"
          using True Some notfull by (simp add: Let_def)
        show ?thesis unfolding stepL by (rule Cons.IH [OF b a])
      qed
    qed
  qed
qed

subsection \<open>The results of a completed cycle\<close>

lemma collectMetrics_Inr:
  assumes "snd (collectMetrics env g) = Inr out"
  shows "\<exists>memLimit memUsage usageNs.
     readMemory (fileSystem env) (detectCgroupVersion (fileSystem env)) = Inr (memLimit, memUsage) \<and>
     readUsageNs (fileSystem env) (detectCgroupVersion (fileSystem env)) = Inr usageNs \<and>
     cpuUsagePercent out =
       cpuUsagePercentOf (lastCpuUsageNs g) (lastTsContainer g) usageNs (dateNow env)
         (getCpuLimit (fileSystem env) (hostCpus env) (detectCgroupVersion (fileSystem env))) \<and>
     cpu_usage_percent (data out) = fixed2OrZero (cpuUsagePercent out) \<and>
     memPercent out = memPercentOf memLimit memUsage \<and>
     memory_limit_bytes (data out) = memLimit \<and>
     memory_usage_bytes (data out) = memUsage \<and>
     memory_usage_percent (data out) = toFixed 2 (memPercent out) \<and>
     storagePercent out = storagePercentOf (storage_total_bytes (data out)) (storage_used_bytes (data out)) \<and>
     storage_usage_percent (data out) = toFixed 2 (storagePercent out) \<and>
     samples out =
       snd (listProcessSamples (ENV_PROC_UIDS (rawProcUids env)) (ENV_PROC_MODE (rawProcMode env))
              (getuidResult env) (PROC_MAX (rawProcMax env)) (CLK_TCK (ensureSysConf env g))
              (procReads env) (prevProcTimes g) (dateNow env)
              (getCpuLimit (fileSystem env) (hostCpus env) (detectCgroupVersion (fileSystem env)))
              memLimit) \<and>
     processes (data out) = map processEntryOf (samples out)"
  using assms
  by (auto simp: collectMetrics_def Let_def ensureSysConf_def split: if_splits sum.splits prod.splits)

lemma collectMetrics_completes:
  assumes "redisConnects env" "redisStores env"
    and "readMemory (fileSystem env) (detectCgroupVersion (fileSystem env)) = Inr (memLimit, memUsage)"
    and "readUsageNs (fileSystem env) (detectCgroupVersion (fileSystem env)) = Inr usageNs"
  shows "\<not> isl (snd (collectMetrics env g))"
  using assms by (simp add: collectMetrics_def Let_def split: prod.splits)

lemma exampleV2_reads:
  "detectCgroupVersion exampleV2Files = V2"
  "readMemory exampleV2Files V2 = Inr (104857600, 209715200)"
  "readUsageNs exampleV2Files V2 = Inr (Fin 2100000000)"
  "getCpuLimit exampleV2Files 4 V2 = 2"
  by code_simp+

lemma exampleHost_reads:
  "detectCgroupVersion exampleHostFiles = V1"
  "readMemory exampleHostFiles V1 = Inr (0, 0)"
  "readUsageNs exampleHostFiles V1 = Inr (Fin 0)"
  "getCpuLimit exampleHostFiles 4 V1 = 4"
  "readMemory exampleHostFiles V2 = Inr (8192000000, 0)"
  by code_simp+

lemma exampleEnv_fields:
  "redisConnects exampleEnv" "redisStores exampleEnv" "fileSystem exampleEnv = exampleV2Files"
  "hostCpus exampleEnv = 4" "dateNow exampleEnv = 1700000010000"
  by (simp_all add: exampleEnv_def)

lemma exampleHostEnv_fields:
  "redisConnects exampleHostEnv" "redisStores exampleHostEnv"
  "fileSystem exampleHostEnv = exampleHostFiles" "hostCpus exampleHostEnv = 4"
  by (simp_all add: exampleHostEnv_def exampleEnv_def)

lemma exampleEnv_completes: "\<not> isl (snd (collectMetrics exampleEnv g))"
  by (rule collectMetrics_completes [where memLimit = 104857600 and memUsage = 209715200
        and usageNs = "Fin 2100000000"])
     (simp_all add: exampleEnv_fields exampleV2_reads)

lemma exampleHostEnv_completes: "\<not> isl (snd (collectMetrics exampleHostEnv g))"
  by (rule collectMetrics_completes [where memLimit = 0 and memUsage = 0 and usageNs = "Fin 0"])
     (simp_all add: exampleHostEnv_fields exampleHost_reads)

lemma Inr_projr: "\<not> isl x \<Longrightarrow> x = Inr (projr x)"
  by (cases x) simp_all

lemma listProcessSamples_first_cycle:
  "s \<in> set (snd (listProcessSamples envUids envMode gu procMax clkTck fsx Map.empty now cpuLimit memLimitBytes))
   \<Longrightarrow> cpu_percent s = None"
  using sampleLoop_first_cycle [of Map.empty now "[]" "buildAllowedUidSet envUids envMode gu" procMax
      clkTck fsx cpuLimit memLimitBytes "readdir fsx"]
  by (simp add: listProcessSamples_def Let_def set_sortBy)

lemma exampleEnv_more:
  "procReads exampleEnv = exampleProcfs" "rawProcUids exampleEnv = None"
  "rawProcMode exampleEnv = None" "rawProcMax exampleEnv = None" "getuidResult exampleEnv = Some 0"
  by (simp_all add: exampleEnv_def)

lemma listProcessSamples_example_pids:
  "map pid (snd (listProcessSamples (ENV_PROC_UIDS None) (ENV_PROC_MODE None) (Some 0)
         (PROC_MAX None) clkTck exampleProcfs Map.empty now cpuLimit memLimitBytes)) = [1, 2]"
proof -
  have a: "buildAllowedUidSet (ENV_PROC_UIDS None) (ENV_PROC_MODE None) (Some 0) = None"
    by code_simp
  have pm: "PROC_MAX None = 8192" by code_simp
  have rd: "readdir exampleProcfs = [1, 2]" by (simp add: exampleProcfs_def)
  have "snd (sampleLoop None 8192 clkTck exampleProcfs now cpuLimit memLimitBytes [1, 2] Map.empty [])
      = [mkSample now cpuLimit memLimitBytes clkTck exampleProcfs 1 (110, 0) None,
         mkSample now cpuLimit memLimitBytes clkTck exampleProcfs 2 (250, 1)
           ([1 \<mapsto> \<lparr>jiffies = 110, ts = now\<rparr>] (2::int))]"
    by (simp add: exampleProcfs_def uidPasses_def Let_def)
  then show ?thesis
    by (simp add: listProcessSamples_def Let_def a pm rd sortBy_def mkSample_def cmpSamples_def
          cpuPct_def memPct_def exampleProcfs_def)
qed

subsection \<open>Webhook entries\<close>

lemma executeWebhook_success:
  "success (executeWebhook config rsn run) =
     (\<exists>status. outcome run = Response status \<and> 200 \<le> status \<and> status \<le> 299)"
  by (cases "outcome run") (simp_all add: executeWebhook_def responseOk_def)

lemma executeWebhook_statusCode:
  "statusCode (executeWebhook config rsn run) =
     (case outcome run of Response status \<Rightarrow> Some status | Rejected m \<Rightarrow> None)"
  by (cases "outcome run") (simp_all add: executeWebhook_def)

lemma executeWebhook_entry:
  "success (executeWebhook config rsn run) =
     (\<exists>status. statusCode (executeWebhook config rsn run) = Some status \<and> 200 \<le> status \<and> status \<le> 299)"
  by (cases "outcome run") (simp_all add: executeWebhook_def responseOk_def)

subsection \<open>The threshold check\<close>

lemma checkResource_lastTimes:
  "lastTimes (checkResource s runs now r v thr st) =
     (if jsGe v (Fin thr) \<and> now - (case lastTimes st r of None \<Rightarrow> 0 | Some t \<Rightarrow> t) \<ge> 5 * 60 * 1000
      then (lastTimes st)(r \<mapsto> now) else lastTimes st)"
  by (simp add: checkResource_def NOTIFICATION_COOLDOWN_def Let_def)

lemma checkResource_notified:
  "notified (checkResource s runs now r v thr st) =
     notified st @
     (if jsGe v (Fin thr) \<and> now - (case lastTimes st r of None \<Rightarrow> 0 | Some t \<Rightarrow> t) \<ge> 5 * 60 * 1000
      then [(r, v, thr)] else [])"
  by (simp add: checkResource_def NOTIFICATION_COOLDOWN_def Let_def)

lemma checkThresholds_lastTimes:
  "lastTimes (checkThresholds s runs now cpuV memV stoV lnt) r =
     (if enabled (thresholds s) \<and>
         jsGe (case r of Cpu \<Rightarrow> cpuV | Memory \<Rightarrow> memV | Storage \<Rightarrow> stoV)
              (Fin (case r of Cpu \<Rightarrow> cpu (thresholds s) | Memory \<Rightarrow> memory (thresholds s)
                            | Storage \<Rightarrow> storage (thresholds s))) \<and>
         now - (case lnt r of None \<Rightarrow> 0 | Some t \<Rightarrow> t) \<ge> 5 * 60 * 1000
      then Some now else lnt r)"
  by (cases r) (simp_all add: checkThresholds_def Let_def checkResource_lastTimes)

lemma checkThresholds_notified:
  "map fst (notified (checkThresholds s runs now cpuV memV stoV lnt)) =
     filter (\<lambda>r. enabled (thresholds s) \<and>
         jsGe (case r of Cpu \<Rightarrow> cpuV | Memory \<Rightarrow> memV | Storage \<Rightarrow> stoV)
              (Fin (case r of Cpu \<Rightarrow> cpu (thresholds s) | Memory \<Rightarrow> memory (thresholds s)
                            | Storage \<Rightarrow> storage (thresholds s))) \<and>
         now - (case lnt r of None \<Rightarrow> 0 | Some t \<Rightarrow> t) \<ge> 5 * 60 * 1000)
       [Cpu, Memory, Storage]"
  by (simp add: checkThresholds_def Let_def checkResource_lastTimes checkResource_notified)

lemma example_cpu_only:
  "checkThresholds exampleSettings runs now (Fin v) (Fin 0) (Fin 0) lnt =
     checkResource exampleSettings runs now Cpu (Fin v) 80
       \<lparr>lastTimes = lnt, notified = [], recorded = []\<rparr>"
  by (simp add: checkThresholds_def Let_def exampleSettings_def checkResource_def)

lemma checkResource_recorded:
  "recorded (checkResource s runs now r v thr st) =
     recorded st @
     (if jsGe v (Fin thr) \<and> now - (case lastTimes st r of None \<Rightarrow> 0 | Some t \<Rightarrow> t) \<ge> 5 * 60 * 1000
      then sendWebhookNotification s (runs r) r v thr else [])"
  by (simp add: checkResource_def NOTIFICATION_COOLDOWN_def Let_def)

lemma checkThresholds_recorded:
  "recorded (checkThresholds s runs now cpuV memV stoV lnt) =
     concat (map (\<lambda>r. sendWebhookNotification s (runs r) r
                    (case r of Cpu \<Rightarrow> cpuV | Memory \<Rightarrow> memV | Storage \<Rightarrow> stoV)
                    (case r of Cpu \<Rightarrow> cpu (thresholds s) | Memory \<Rightarrow> memory (thresholds s)
                             | Storage \<Rightarrow> storage (thresholds s)))
       (filter (\<lambda>r. enabled (thresholds s) \<and>
         jsGe (case r of Cpu \<Rightarrow> cpuV | Memory \<Rightarrow> memV | Storage \<Rightarrow> stoV)
              (Fin (case r of Cpu \<Rightarrow> cpu (thresholds s) | Memory \<Rightarrow> memory (thresholds s)
                            | Storage \<Rightarrow> storage (thresholds s))) \<and>
         now - (case lnt r of None \<Rightarrow> 0 | Some t \<Rightarrow> t) \<ge> 5 * 60 * 1000)
       [Cpu, Memory, Storage]))"
  by (auto simp: checkThresholds_def Let_def checkResource_lastTimes checkResource_recorded)

lemma example_send:
  "sendWebhookNotification exampleSettings wr Cpu (Fin 85) 80 =
     [executeWebhook exampleWebhook ''CPU threshold exceeded: 85.0%'' (wr exampleWebhook)]"
  "sendWebhookNotification exampleSettings wr Cpu (Fin 90) 80 =
     [executeWebhook exampleWebhook ''CPU threshold exceeded: 90.0%'' (wr exampleWebhook)]"
proof -
  have r85: "resourceUpper Cpu @ '' threshold exceeded: '' @ toFixed1 (Fin 85) @ ''%''
               = ''CPU threshold exceeded: 85.0%''"
    by code_simp
  have r90: "resourceUpper Cpu @ '' threshold exceeded: '' @ toFixed1 (Fin 90) @ ''%''
               = ''CPU threshold exceeded: 90.0%''"
    by code_simp
  have e: "enabled (thresholds exampleSettings)"
    "filter wh_enabled (webhooks exampleSettings) = [exampleWebhook]"
    by (simp_all add: exampleSettings_def exampleWebhook_def)
  show "sendWebhookNotification exampleSettings wr Cpu (Fin 85) 80 =
     [executeWebhook exampleWebhook ''CPU threshold exceeded: 85.0%'' (wr exampleWebhook)]"
    unfolding sendWebhookNotification_def r85 by (simp add: e)
  show "sendWebhookNotification exampleSettings wr Cpu (Fin 90) 80 =
     [executeWebhook exampleWebhook ''CPU threshold exceeded: 90.0%'' (wr exampleWebhook)]"
    unfolding sendWebhookNotification_def r90 by (simp add: e)
qed

subsection \<open>The CPU limit without a cgroup quota\<close>

lemma getCpuLimit_v2_absent:
  "fl ''/sys/fs/cgroup/cpu.max'' = None \<Longrightarrow> getCpuLimit fl cpus V2 = of_nat cpus"
  by (simp add: getCpuLimit_def)

lemma getCpuLimit_v1_absent:
  "fl ''/sys/fs/cgroup/cpu/cpu.cfs_quota_us'' = None \<Longrightarrow>
   getCpuLimit fl cpus V1 = of_nat cpus"
proof -
  have z: "parseInt (trim ''0'') = Some 0" by code_simp
  assume "fl ''/sys/fs/cgroup/cpu/cpu.cfs_quota_us'' = None"
  then show ?thesis
    by (simp add: getCpuLimit_def Let_def z quotaOverPeriod_def split: option.splits)
qed

section \<open>The UID allow-list policy\<close>

text \<open>
  Claim C9. The allow-list is a function of the mode, the explicit UID list and the
  process's own UID alone. A list that is not blank yields the set of its parts that
  parse, or the singleton of the own UID when none does; mode \<open>user+root\<close> with own UID
  1000 yields \<open>{0, 1000}\<close>; the list \<open>5, 7,7\<close> yields \<open>{5, 7}\<close>; mode \<open>all\<close>, also by
  default, yields no filter, under which every UID passes, an unreadable one too.
\<close>

theorem buildAllowedUidSet_policy:
  "(trim raw \<noteq> [] \<longrightarrow>
      buildAllowedUidSet (ENV_PROC_UIDS (Some raw)) mode getuid =
        Some (let s = {n. \<exists>p \<in> set (uidParts (trim raw)). parseInt p = Some n}
              in if s = {} then {case getuid of None \<Rightarrow> 0 | Some u \<Rightarrow> u} else s))
   \<and> buildAllowedUidSet (ENV_PROC_UIDS None) (ENV_PROC_MODE (Some ''user+root'')) (Some 1000)
       = Some {0, 1000}
   \<and> buildAllowedUidSet (ENV_PROC_UIDS (Some ''5, 7,7'')) mode getuid = Some {5, 7}
   \<and> buildAllowedUidSet (ENV_PROC_UIDS None) (ENV_PROC_MODE (Some ''all'')) getuid = None
   \<and> buildAllowedUidSet (ENV_PROC_UIDS None) (ENV_PROC_MODE None) getuid = None
   \<and> (\<forall>u. uidPasses None u)"
proof (intro conjI)
  show "trim raw \<noteq> [] \<longrightarrow>
      buildAllowedUidSet (ENV_PROC_UIDS (Some raw)) mode getuid =
        Some (let s = {n. \<exists>p \<in> set (uidParts (trim raw)). parseInt p = Some n}
              in if s = {} then {case getuid of None \<Rightarrow> 0 | Some u \<Rightarrow> u} else s)"
    by (simp add: buildAllowedUidSet_def ENV_PROC_UIDS_def addUids_set Let_def)
  show "buildAllowedUidSet (ENV_PROC_UIDS None) (ENV_PROC_MODE (Some ''user+root'')) (Some 1000)
       = Some {0, 1000}"
    by code_simp
  have t: "ENV_PROC_UIDS (Some ''5, 7,7'') = Some ''5, 7,7''" by code_simp
  show "buildAllowedUidSet (ENV_PROC_UIDS (Some ''5, 7,7'')) mode getuid = Some {5, 7}"
    unfolding t
    by (auto simp add: buildAllowedUidSet_def addUids_set uidParts_example parseInt_examples Let_def)
  have m: "ENV_PROC_MODE (Some ''all'') = ''all''" "ENV_PROC_MODE None = ''all''" by code_simp+
  show "buildAllowedUidSet (ENV_PROC_UIDS None) (ENV_PROC_MODE (Some ''all'')) getuid = None"
    unfolding m by (simp add: buildAllowedUidSet_def ENV_PROC_UIDS_def)
  show "buildAllowedUidSet (ENV_PROC_UIDS None) (ENV_PROC_MODE None) getuid = None"
    unfolding m by (simp add: buildAllowedUidSet_def ENV_PROC_UIDS_def)
  show "\<forall>u. uidPasses None u"
    by (simp add: uidPasses_def)
qed

text \<open>
  The first part at the list \<open>abc\<close>, of which no part parses, for a process of UID 1000.
\<close>

theorem buildAllowedUidSet_policy_witness:
  "trim ''abc'' \<noteq> [] \<and>
   buildAllowedUidSet (ENV_PROC_UIDS (Some ''abc'')) ''user'' (Some 1000) = Some {1000}"
proof -
  have t: "trim ''abc'' = ''abc''" by code_simp
  have e: "{n. \<exists>p \<in> set (uidParts ''abc''). parseInt p = Some n} = {}"
  proof -
    have "uidParts ''abc'' = [''abc'']" by code_simp
    moreover have "parseInt ''abc'' = None" by code_simp
    ultimately show ?thesis by simp
  qed
  from buildAllowedUidSet_policy [of "''abc''" "''user''" "Some 1000"]
  show ?thesis by (simp add: t e)
qed

section \<open>The process list and its cap\<close>

text \<open>
  Claim C2, as stated: when more than \<open>PROC_MAX\<close> processes survive, the returned list is
  the sorted list of all samples cut to its first \<open>PROC_MAX\<close> elements. It fails: the
  loop stops sampling at \<open>PROC_MAX\<close> and only then sorts. With \<open>PROC_MAX = 1\<close> and the two
  example processes the code returns PID 1 (2%), the stated list holds PID 2 (10%).
\<close>

theorem listProcessSamples_not_top_PROC_MAX:
  "snd (listProcessSamples None ''all'' None 1 100 exampleProcfs examplePrev 5000 1 0)
   \<noteq> spec_listProcessSamples None ''all'' None 1 100 exampleProcfs examplePrev 5000 1 0"
  by code_simp

text \<open>
  Claim C2, amended: the returned list is the first \<open>PROC_MAX\<close> surviving samples in the
  order of the listing, sorted by CPU share descending, then memory descending, an
  absent share counting as 0; so it is sorted, holds exactly those samples, and has at
  most \<open>PROC_MAX\<close> elements.
\<close>

theorem listProcessSamples_sorts_first_PROC_MAX:
  "1 \<le> procMax \<Longrightarrow>
   snd (listProcessSamples envUids envMode getuid procMax clkTck fsx prev now cpuLimit memLimitBytes)
     = sortBy cmpSamples (take (nat procMax)
         (survivingSamples envUids envMode getuid clkTck fsx prev now cpuLimit memLimitBytes))
   \<and> sorted_wrt (\<lambda>a b. cmpSamples a b \<le> 0)
         (snd (listProcessSamples envUids envMode getuid procMax clkTck fsx prev now cpuLimit memLimitBytes))
   \<and> mset (snd (listProcessSamples envUids envMode getuid procMax clkTck fsx prev now cpuLimit memLimitBytes))
       = mset (take (nat procMax)
           (survivingSamples envUids envMode getuid clkTck fsx prev now cpuLimit memLimitBytes))
   \<and> int (length (snd (listProcessSamples envUids envMode getuid procMax clkTck fsx prev now cpuLimit memLimitBytes)))
       \<le> procMax"
proof -
  assume pm: "1 \<le> procMax"
  let ?all = "survivingSamples envUids envMode getuid clkTck fsx prev now cpuLimit memLimitBytes"
  have "int (length ([]::sample list)) < procMax" using pm by simp
  from sampleLoop_take [OF pm this]
  have eq: "snd (listProcessSamples envUids envMode getuid procMax clkTck fsx prev now cpuLimit memLimitBytes)
     = sortBy cmpSamples (take (nat procMax) ?all)"
    by (simp add: listProcessSamples_def survivingSamples_def Let_def)
  have "length (take (nat procMax) ?all) \<le> nat procMax" by simp
  then have len: "int (length (sortBy cmpSamples (take (nat procMax) ?all))) \<le> procMax"
    using pm by (simp add: length_sortBy)
  show ?thesis
    unfolding eq using len by (simp add: sorted_sortBy mset_sortBy)
qed

text \<open>The amended statement at the same input: the one sample kept is that of PID 1.\<close>

theorem listProcessSamples_sorts_first_PROC_MAX_witness:
  "(1::int) \<le> 1 \<and>
  map pid (snd (listProcessSamples None ''all'' None 1 100 exampleProcfs examplePrev 5000 1 0)) = [1]
  \<and> map cpu_percent (snd (listProcessSamples None ''all'' None 1 100 exampleProcfs examplePrev 5000 1 0)) = [Some 2]"
proof -
  have h: "(1::int) \<le> 1" by simp
  have e: "sortBy cmpSamples (take (nat 1)
         (survivingSamples None ''all'' None 100 exampleProcfs examplePrev 5000 1 0))
    = [\<lparr>pid = 1, uid = Some 0, ppid = 0, command = ''sh'', cpu_percent = Some 2,
        mem_bytes = 4096, mem_percent = None\<rparr>]"
    by code_simp
  from listProcessSamples_sorts_first_PROC_MAX [OF h, of None "''all''" None 100 exampleProcfs examplePrev 5000 1 0]
  show ?thesis unfolding e by simp
qed

section \<open>The CPU share of a process\<close>

text \<open>
  Claim C7. For every sample of a cycle (the listing holds each PID once, and
  \<open>CLK_TCK\<close> is positive, as \<open>ensureSysConf\<close> keeps it): the CPU share is absent exactly
  when the map held no entry for the PID or no time has passed since that entry;
  otherwise it is present, lies between 0 and 100, and is
  \<open>clamp((deltaTicks / CLK_TCK / deltaSeconds) * 100 / max(cpuLimit, 1e-6), 0, 100)\<close>.
  After the cycle the map holds the sample's ticks and the cycle's time for the PID, so
  a later cycle finds the observation.
\<close>

theorem cpu_percent_null_iff_first_observation:
  assumes "distinct (readdir fsx)"
    and "0 < clkTck"
    and "s \<in> set (snd (listProcessSamples envUids envMode gu procMax clkTck fsx prev now cpuLimit memLimitBytes))"
  shows "\<exists>tms. getPidTimesAndPpid fsx (pid s) = Some tms \<and>
     (case prev (pid s) of
        None \<Rightarrow> cpu_percent s = None
      | Some pr \<Rightarrow>
          if of_int (now - ts pr) / (1000::rat) \<le> 0 then cpu_percent s = None
          else cpu_percent s \<noteq> None \<and> 0 \<le> the (cpu_percent s) \<and> the (cpu_percent s) \<le> 100 \<and>
               the (cpu_percent s) =
                 min 100 (max 0
                   (of_int (fst tms - jiffies pr) / of_int clkTck / (of_int (now - ts pr) / 1000)
                      * 100 / max cpuLimit (1 / 1000000))))
     \<and> fst (listProcessSamples envUids envMode gu procMax clkTck fsx prev now cpuLimit memLimitBytes) (pid s)
         = Some \<lparr>jiffies = fst tms, ts = now\<rparr>"
proof -
  from listProcessSamples_members [OF assms(1) assms(3)]
  obtain tms where t: "getPidTimesAndPpid fsx (pid s) = Some tms"
    and s: "s = mkSample now cpuLimit memLimitBytes clkTck fsx (pid s) tms (prev (pid s))"
    by blast
  from listProcessSamples_records [OF assms(1) assms(3)] t
  have rec: "fst (listProcessSamples envUids envMode gu procMax clkTck fsx prev now cpuLimit memLimitBytes) (pid s)
         = Some \<lparr>jiffies = fst tms, ts = now\<rparr>"
    by auto
  have c: "cpu_percent s = cpuPct now cpuLimit clkTck (fst tms) (prev (pid s))"
    by (subst s) (simp add: mkSample_def)
  have "case prev (pid s) of
        None \<Rightarrow> cpu_percent s = None
      | Some pr \<Rightarrow>
          if of_int (now - ts pr) / (1000::rat) \<le> 0 then cpu_percent s = None
          else cpu_percent s \<noteq> None \<and> 0 \<le> the (cpu_percent s) \<and> the (cpu_percent s) \<le> 100 \<and>
               the (cpu_percent s) =
                 min 100 (max 0
                   (of_int (fst tms - jiffies pr) / of_int clkTck / (of_int (now - ts pr) / 1000)
                      * 100 / max cpuLimit (1 / 1000000)))"
    unfolding c cpuPct_cases by (simp split: option.splits)
  with t rec show ?thesis by blast
qed

text \<open>The statement at the sample of PID 1 in the example: present, and at most 100.\<close>

theorem cpu_percent_null_iff_first_observation_witness:
  "distinct (readdir exampleProcfs) \<and> (0::int) < 100 \<and>
   exampleSample \<in> set (snd (listProcessSamples None ''all'' None 8192 100 exampleProcfs examplePrev 5000 1 0))
   \<and> examplePrev (pid exampleSample) = Some \<lparr>jiffies = 100, ts = 0\<rparr>
   \<and> cpu_percent exampleSample \<noteq> None \<and> the (cpu_percent exampleSample) \<le> 100"
proof -
  have a: "distinct (readdir exampleProcfs)" by code_simp
  have b: "(0::int) < 100" by simp
  have c: "exampleSample \<in> set (snd (listProcessSamples None ''all'' None 8192 100 exampleProcfs examplePrev 5000 1 0))"
    by code_simp
  have d: "examplePrev (pid exampleSample) = Some \<lparr>jiffies = 100, ts = 0\<rparr>"
    by (simp add: examplePrev_def exampleSample_def)
  from cpu_percent_null_iff_first_observation [OF a b c]
  have "cpu_percent exampleSample \<noteq> None \<and> the (cpu_percent exampleSample) \<le> 100"
    unfolding d by auto
  with a b c d show ?thesis by blast
qed

section \<open>Entries of exited processes\<close>

text \<open>
  Claim C8. After an enumeration the map \<open>prevProcTimes\<close> has no entry for a PID that is
  not in that cycle's listing; it has at most as many entries as the listing has PIDs.
\<close>

theorem stale_entries_deleted:
  "dom (fst (listProcessSamples envUids envMode getuid procMax clkTck fsx prev now cpuLimit memLimitBytes))
     \<subseteq> set (readdir fsx)
   \<and> (p \<notin> set (readdir fsx) \<longrightarrow>
        fst (listProcessSamples envUids envMode getuid procMax clkTck fsx prev now cpuLimit memLimitBytes) p = None)
   \<and> card (dom (fst (listProcessSamples envUids envMode getuid procMax clkTck fsx prev now cpuLimit memLimitBytes)))
        \<le> length (readdir fsx)"
proof -
  let ?m = "fst (listProcessSamples envUids envMode getuid procMax clkTck fsx prev now cpuLimit memLimitBytes)"
  have sub: "dom ?m \<subseteq> set (readdir fsx)"
    by (auto simp: listProcessSamples_def Let_def cleanup_def split: if_splits)
  have "card (dom ?m) \<le> card (set (readdir fsx))"
    using sub by (simp add: card_mono)
  also have "\<dots> \<le> length (readdir fsx)" by (rule card_length)
  finally have c: "card (dom ?m) \<le> length (readdir fsx)" .
  from sub c show ?thesis by auto
qed

text \<open>In the example PID 3 has an entry before the cycle, is not listed, and has none after.\<close>

theorem stale_entries_deleted_witness:
  "3 \<notin> set (readdir exampleProcfs) \<and> examplePrev 3 \<noteq> None \<and>
   fst (listProcessSamples None ''all'' None 8192 100 exampleProcfs examplePrev 5000 1 0) 3 = None"
proof -
  have a: "3 \<notin> set (readdir exampleProcfs)" by code_simp
  have b: "examplePrev 3 \<noteq> None" by (simp add: examplePrev_def)
  from stale_entries_deleted [of None "''all''" None 8192 100 exampleProcfs examplePrev 5000 1 0 3] a b
  show ?thesis by blast
qed

section \<open>The success flag of a webhook entry\<close>

text \<open>
  Claim C1, as stated: the recorded entry has \<open>success = true\<close> exactly when any HTTP
  response was received. It fails: \<open>success\<close> is \<open>response.ok\<close>. An execution answered
  with status 500 is recorded with that status code and \<open>success = false\<close>.
\<close>

theorem executeWebhook_500_recorded_as_failure:
  "outcome exampleRun500 = Response 500 \<and>
   success (executeWebhook exampleWebhook ''CPU threshold exceeded: 85.0%'' exampleRun500) = False \<and>
   statusCode (executeWebhook exampleWebhook ''CPU threshold exceeded: 85.0%'' exampleRun500) = Some 500"
  by (simp add: executeWebhook_def exampleRun500_def responseOk_def)

text \<open>
  Claim C1, amended: the recorded entry has \<open>success = true\<close> exactly when a response
  with a status from 200 to 299 was received; every response is recorded with its
  status code; a failure of the request itself is recorded with \<open>success = false\<close>, no
  status code and the error's message. A notification records one such entry for each
  enabled webhook.
\<close>

theorem executeWebhook_success_iff_2xx:
  "success (executeWebhook config rsn run) =
     (\<exists>status. outcome run = Response status \<and> 200 \<le> status \<and> status \<le> 299)
   \<and> statusCode (executeWebhook config rsn run) =
       (case outcome run of Response status \<Rightarrow> Some status | Rejected m \<Rightarrow> None)
   \<and> (outcome run = Rejected message \<longrightarrow>
        \<not> success (executeWebhook config rsn run) \<and>
        statusCode (executeWebhook config rsn run) = None \<and>
        error (executeWebhook config rsn run) = Some message)
   \<and> (\<forall>e \<in> set (sendWebhookNotification settings runs res val threshold).
        success e = (\<exists>status. statusCode e = Some status \<and> 200 \<le> status \<and> status \<le> 299))
   \<and> length (sendWebhookNotification settings runs res val threshold) =
       (if enabled (thresholds settings) then length (filter wh_enabled (webhooks settings)) else 0)"
proof (intro conjI)
  show "success (executeWebhook config rsn run) =
     (\<exists>status. outcome run = Response status \<and> 200 \<le> status \<and> status \<le> 299)"
    by (rule executeWebhook_success)
  show "statusCode (executeWebhook config rsn run) =
       (case outcome run of Response status \<Rightarrow> Some status | Rejected m \<Rightarrow> None)"
    by (rule executeWebhook_statusCode)
  show "outcome run = Rejected message \<longrightarrow>
        \<not> success (executeWebhook config rsn run) \<and>
        statusCode (executeWebhook config rsn run) = None \<and>
        error (executeWebhook config rsn run) = Some message"
    by (simp add: executeWebhook_def)
  show "\<forall>e \<in> set (sendWebhookNotification settings runs res val threshold).
        success e = (\<exists>status. statusCode e = Some status \<and> 200 \<le> status \<and> status \<le> 299)"
    using executeWebhook_entry by (auto simp: sendWebhookNotification_def)
  show "length (sendWebhookNotification settings runs res val threshold) =
       (if enabled (thresholds settings) then length (filter wh_enabled (webhooks settings)) else 0)"
    by (simp add: sendWebhookNotification_def)
qed

text \<open>
  The amended statement at an execution answered with status 200, and at one that
  times out.
\<close>

theorem executeWebhook_success_iff_2xx_witness:
  "success (executeWebhook exampleWebhook ''CPU threshold exceeded: 85.0%'' exampleRun200)
   \<and> statusCode (executeWebhook exampleWebhook ''CPU threshold exceeded: 85.0%'' exampleRun200) = Some 200
   \<and> \<not> success (executeWebhook exampleWebhook ''CPU threshold exceeded: 85.0%''
          (exampleRun200\<lparr>outcome := Rejected ''The operation was aborted due to timeout''\<rparr>))
   \<and> statusCode (executeWebhook exampleWebhook ''CPU threshold exceeded: 85.0%''
          (exampleRun200\<lparr>outcome := Rejected ''The operation was aborted due to timeout''\<rparr>)) = None"
proof -
  have o: "outcome exampleRun200 = Response 200" by (simp add: exampleRun200_def)
  have r: "outcome (exampleRun200\<lparr>outcome := Rejected ''The operation was aborted due to timeout''\<rparr>)
             = Rejected ''The operation was aborted due to timeout''" by simp
  from executeWebhook_success_iff_2xx
         [of exampleWebhook "''CPU threshold exceeded: 85.0%''" exampleRun200]
  have a: "success (executeWebhook exampleWebhook ''CPU threshold exceeded: 85.0%'' exampleRun200)
     \<and> statusCode (executeWebhook exampleWebhook ''CPU threshold exceeded: 85.0%'' exampleRun200) = Some 200"
    by (simp add: o)
  from executeWebhook_success_iff_2xx
         [of exampleWebhook "''CPU threshold exceeded: 85.0%''"
             "exampleRun200\<lparr>outcome := Rejected ''The operation was aborted due to timeout''\<rparr>"
             "''The operation was aborted due to timeout''"] r
  have b: "\<not> success (executeWebhook exampleWebhook ''CPU threshold exceeded: 85.0%''
          (exampleRun200\<lparr>outcome := Rejected ''The operation was aborted due to timeout''\<rparr>))
   \<and> statusCode (executeWebhook exampleWebhook ''CPU threshold exceeded: 85.0%''
          (exampleRun200\<lparr>outcome := Rejected ''The operation was aborted due to timeout''\<rparr>)) = None"
    by blast
  from a b show ?thesis by blast
qed

section \<open>Which percentages are clamped\<close>

text \<open>
  Claim C3, as stated: every percentage of a snapshot lies between 0 and 100. It fails
  for the memory percentage, which is the plain ratio: in the example container, whose
  usage of 200 MiB is above its limit of 100 MiB, the cycle completes with a memory
  percentage of 200, stored as \<open>200.00\<close>.
\<close>

theorem collectMetrics_memory_percent_above_100:
  "\<not> isl (snd (collectMetrics exampleEnv exampleGlobals))
   \<and> memPercent (projr (snd (collectMetrics exampleEnv exampleGlobals))) = 200
   \<and> memory_usage_percent (data (projr (snd (collectMetrics exampleEnv exampleGlobals)))) = ''200.00''"
proof -
  let ?out = "projr (snd (collectMetrics exampleEnv exampleGlobals))"
  have c: "\<not> isl (snd (collectMetrics exampleEnv exampleGlobals))" by (rule exampleEnv_completes)
  then have "snd (collectMetrics exampleEnv exampleGlobals) = Inr ?out" by (rule Inr_projr)
  from collectMetrics_Inr [OF this]
  have m: "memPercent ?out = memPercentOf 104857600 209715200"
    and f: "memory_usage_percent (data ?out) = toFixed 2 (memPercent ?out)"
    by (auto simp: exampleEnv_fields exampleV2_reads)
  have v: "memPercentOf 104857600 209715200 = 200" by (simp add: memPercentOf_def)
  have s: "toFixed 2 200 = ''200.00''" by code_simp
  from c m f v s show ?thesis by simp
qed

text \<open>
  Claim C3, amended: in every completed cycle the container's CPU percentage is
  clamped, so it lies between 0 and 100 unless it is \<open>NaN\<close>, and the stored text is the
  formatting of a number between 0 and 100; every CPU percentage of a process that is
  present lies between 0 and 100. The memory and storage percentages and the memory
  percentage of a process are the ratio of the two byte counts times 100, not clamped:
  they lie between 0 and 100 when the numerator is between 0 and the denominator.
\<close>

theorem collectMetrics_cpu_percent_clamped:
  "snd (collectMetrics env g) = Inr out \<Longrightarrow>
   (cpuUsagePercent out = NaN \<or> (\<exists>r. cpuUsagePercent out = Fin r \<and> 0 \<le> r \<and> r \<le> 100))
   \<and> (\<exists>r. 0 \<le> r \<and> r \<le> 100 \<and> cpu_usage_percent (data out) = toFixed 2 r)
   \<and> (\<forall>s \<in> set (samples out). \<forall>v. cpu_percent s = Some v \<longrightarrow> 0 \<le> v \<and> v \<le> 100)
   \<and> memPercent out = memPercentOf (memory_limit_bytes (data out)) (memory_usage_bytes (data out))
   \<and> (0 \<le> memory_usage_bytes (data out) \<and> memory_usage_bytes (data out) \<le> memory_limit_bytes (data out)
        \<longrightarrow> 0 \<le> memPercent out \<and> memPercent out \<le> 100)
   \<and> storagePercent out = storagePercentOf (storage_total_bytes (data out)) (storage_used_bytes (data out))
   \<and> (0 \<le> storage_used_bytes (data out) \<and> storage_used_bytes (data out) \<le> storage_total_bytes (data out)
        \<longrightarrow> 0 \<le> storagePercent out \<and> storagePercent out \<le> 100)
   \<and> (\<forall>s \<in> set (samples out).
        mem_percent s = memPct (memory_limit_bytes (data out)) (mem_bytes s))"
proof -
  assume a: "snd (collectMetrics env g) = Inr out"
  from collectMetrics_Inr [OF a] obtain memLimit memUsage usageNs where
    cpu: "cpuUsagePercent out =
       cpuUsagePercentOf (lastCpuUsageNs g) (lastTsContainer g) usageNs (dateNow env)
         (getCpuLimit (fileSystem env) (hostCpus env) (detectCgroupVersion (fileSystem env)))"
    and cpuf: "cpu_usage_percent (data out) = fixed2OrZero (cpuUsagePercent out)"
    and mem: "memPercent out = memPercentOf memLimit memUsage"
    and ml: "memory_limit_bytes (data out) = memLimit"
    and mu: "memory_usage_bytes (data out) = memUsage"
    and sto: "storagePercent out = storagePercentOf (storage_total_bytes (data out)) (storage_used_bytes (data out))"
    and sm: "samples out =
       snd (listProcessSamples (ENV_PROC_UIDS (rawProcUids env)) (ENV_PROC_MODE (rawProcMode env))
              (getuidResult env) (PROC_MAX (rawProcMax env)) (CLK_TCK (ensureSysConf env g))
              (procReads env) (prevProcTimes g) (dateNow env)
              (getCpuLimit (fileSystem env) (hostCpus env) (detectCgroupVersion (fileSystem env)))
              memLimit)"
    by blast
  have 1: "cpuUsagePercent out = NaN \<or> (\<exists>r. cpuUsagePercent out = Fin r \<and> 0 \<le> r \<and> r \<le> 100)"
    unfolding cpu by (rule cpuUsagePercentOf_range)
  have 2: "\<exists>r. 0 \<le> r \<and> r \<le> 100 \<and> cpu_usage_percent (data out) = toFixed 2 r"
    unfolding cpuf by (rule fixed2OrZero_range [OF 1])
  have shape: "\<And>s. s \<in> set (samples out) \<Longrightarrow>
      \<exists>p tms pr. s = mkSample (dateNow env)
         (getCpuLimit (fileSystem env) (hostCpus env) (detectCgroupVersion (fileSystem env)))
         memLimit (CLK_TCK (ensureSysConf env g)) (procReads env) p tms pr"
    unfolding sm by (rule listProcessSamples_shape)
  have 3: "\<forall>s \<in> set (samples out). \<forall>v. cpu_percent s = Some v \<longrightarrow> 0 \<le> v \<and> v \<le> 100"
  proof (intro ballI allI impI)
    fix s v assume "s \<in> set (samples out)" and v: "cpu_percent s = Some v"
    from shape [OF this(1)] obtain p tms pr where
      "s = mkSample (dateNow env)
         (getCpuLimit (fileSystem env) (hostCpus env) (detectCgroupVersion (fileSystem env)))
         memLimit (CLK_TCK (ensureSysConf env g)) (procReads env) p tms pr" by blast
    then have "cpu_percent s = cpuPct (dateNow env)
         (getCpuLimit (fileSystem env) (hostCpus env) (detectCgroupVersion (fileSystem env)))
         (CLK_TCK (ensureSysConf env g)) (fst tms) pr"
      by (simp add: mkSample_def)
    with v show "0 \<le> v \<and> v \<le> 100" using cpuPct_range by metis
  qed
  have 4: "memPercent out = memPercentOf (memory_limit_bytes (data out)) (memory_usage_bytes (data out))"
    by (simp add: mem ml mu)
  have 5: "0 \<le> memory_usage_bytes (data out) \<and> memory_usage_bytes (data out) \<le> memory_limit_bytes (data out)
        \<longrightarrow> 0 \<le> memPercent out \<and> memPercent out \<le> 100"
    unfolding 4 using memPercentOf_range by blast
  have 6: "0 \<le> storage_used_bytes (data out) \<and> storage_used_bytes (data out) \<le> storage_total_bytes (data out)
        \<longrightarrow> 0 \<le> storagePercent out \<and> storagePercent out \<le> 100"
    unfolding sto using storagePercentOf_range by blast
  have 7: "\<forall>s \<in> set (samples out).
        mem_percent s = memPct (memory_limit_bytes (data out)) (mem_bytes s)"
  proof
    fix s assume "s \<in> set (samples out)"
    from shape [OF this] obtain p tms pr where
      "s = mkSample (dateNow env)
         (getCpuLimit (fileSystem env) (hostCpus env) (detectCgroupVersion (fileSystem env)))
         memLimit (CLK_TCK (ensureSysConf env g)) (procReads env) p tms pr" by blast
    then show "mem_percent s = memPct (memory_limit_bytes (data out)) (mem_bytes s)"
      by (simp add: mkSample_def ml)
  qed
  from 1 2 3 4 5 sto 6 7 show ?thesis by blast
qed

text \<open>
  The amended statement at the example cycle: 0.1 seconds of CPU time in 5 seconds on 2
  cores is 1 percent.
\<close>

theorem collectMetrics_cpu_percent_clamped_witness:
  "snd (collectMetrics exampleEnv exampleGlobals)
     = Inr (projr (snd (collectMetrics exampleEnv exampleGlobals)))
   \<and> cpuUsagePercent (projr (snd (collectMetrics exampleEnv exampleGlobals))) = Fin 1
   \<and> cpu_usage_percent (data (projr (snd (collectMetrics exampleEnv exampleGlobals)))) = ''1.00''
   \<and> (cpuUsagePercent (projr (snd (collectMetrics exampleEnv exampleGlobals))) = NaN \<or>
       (\<exists>r. cpuUsagePercent (projr (snd (collectMetrics exampleEnv exampleGlobals))) = Fin r
            \<and> 0 \<le> r \<and> r \<le> 100))"
proof -
  let ?out = "projr (snd (collectMetrics exampleEnv exampleGlobals))"
  have h: "snd (collectMetrics exampleEnv exampleGlobals) = Inr ?out"
    by (rule Inr_projr [OF exampleEnv_completes])
  from collectMetrics_Inr [OF h]
  have c: "cpuUsagePercent ?out =
       cpuUsagePercentOf (Fin 2000000000) 1700000005000 (Fin 2100000000) 1700000010000 2"
    and f: "cpu_usage_percent (data ?out) = fixed2OrZero (cpuUsagePercent ?out)"
    by (auto simp: exampleEnv_fields exampleV2_reads exampleGlobals_def)
  have v: "cpuUsagePercentOf (Fin 2000000000) 1700000005000 (Fin 2100000000) 1700000010000 2 = Fin 1"
    unfolding cpuUsagePercentOf_def by (simp add: Let_def)
  have s: "fixed2OrZero (Fin 1) = ''1.00''" by code_simp
  from collectMetrics_cpu_percent_clamped [OF h]
  have r: "cpuUsagePercent ?out = NaN \<or> (\<exists>r. cpuUsagePercent ?out = Fin r \<and> 0 \<le> r \<and> r \<le> 100)"
    by blast
  from h c f v s r show ?thesis by simp
qed

section \<open>Limits without cgroup files\<close>

text \<open>
  Claim C4 at a host whose cgroup files are absent and whose mount table names no
  \<open>cgroup2\<close>: the version detected is v1, the CPU limit is the host's CPU count, but the
  memory limit is 0 and not the host's 8000000 kB, in the stored snapshot too. The v2
  branch, given the same files, does substitute the host's total.
\<close>

theorem v1_memory_limit_stays_zero:
  "detectCgroupVersion exampleHostFiles = V1
   \<and> getCpuLimit exampleHostFiles 4 V1 = 4
   \<and> readMemory exampleHostFiles V1 = Inr (0, 0)
   \<and> readMemory exampleHostFiles V2 = Inr (8000000 * 1024, 0)
   \<and> \<not> isl (snd (collectMetrics exampleHostEnv initialGlobals))
   \<and> memory_limit_bytes (data (projr (snd (collectMetrics exampleHostEnv initialGlobals)))) = 0
   \<and> cpu_limit (data (projr (snd (collectMetrics exampleHostEnv initialGlobals)))) = 4"
proof -
  let ?out = "projr (snd (collectMetrics exampleHostEnv initialGlobals))"
  have c: "\<not> isl (snd (collectMetrics exampleHostEnv initialGlobals))"
    by (rule exampleHostEnv_completes)
  then have h: "snd (collectMetrics exampleHostEnv initialGlobals) = Inr ?out" by (rule Inr_projr)
  from collectMetrics_Inr [OF h]
  have m: "memory_limit_bytes (data ?out) = 0"
    by (auto simp: exampleHostEnv_fields exampleHost_reads)
  have l: "cpu_limit (data ?out) = 4"
    using h c
    by (simp add: collectMetrics_def Let_def exampleHostEnv_fields exampleHost_reads split: prod.splits)
  from c m l show ?thesis by (simp add: exampleHost_reads)
qed

section \<open>The notification cooldown\<close>

text \<open>
  Claim C5. For each resource on its own: with thresholds enabled, a value at or above
  the resource's threshold notifies exactly when at least 5 minutes lie between the
  check and the resource's last notification (time 0 when there was none), and then the
  resource's entry becomes the time of the check; otherwise nothing is sent and the
  entry stays. To notify is to call \<open>sendWebhookNotification\<close>: the entries a check
  records are those of the calls for the resources that are due, in the order CPU,
  memory, storage. In the trace with threshold 80 and one enabled webhook, started at
  any clock reading \<open>T0\<close> of at least 5 minutes: 85% at \<open>T0\<close> executes the webhook with the
  reason \<open>CPU threshold exceeded: 85.0%\<close>, 90% one minute later executes nothing, 90%
  six minutes after \<open>T0\<close> executes it with the reason \<open>CPU threshold exceeded: 90.0%\<close>.
\<close>

theorem checkThresholds_cooldown:
  "300000 \<le> T0 \<Longrightarrow>
   (\<forall>r. lastTimes (checkThresholds s runs now cpuV memV stoV lnt) r =
     (if enabled (thresholds s) \<and>
         jsGe (case r of Cpu \<Rightarrow> cpuV | Memory \<Rightarrow> memV | Storage \<Rightarrow> stoV)
              (Fin (case r of Cpu \<Rightarrow> cpu (thresholds s) | Memory \<Rightarrow> memory (thresholds s)
                            | Storage \<Rightarrow> storage (thresholds s))) \<and>
         now - (case lnt r of None \<Rightarrow> 0 | Some t \<Rightarrow> t) \<ge> 5 * 60 * 1000
      then Some now else lnt r))
   \<and> map fst (notified (checkThresholds s runs now cpuV memV stoV lnt)) =
     filter (\<lambda>r. enabled (thresholds s) \<and>
         jsGe (case r of Cpu \<Rightarrow> cpuV | Memory \<Rightarrow> memV | Storage \<Rightarrow> stoV)
              (Fin (case r of Cpu \<Rightarrow> cpu (thresholds s) | Memory \<Rightarrow> memory (thresholds s)
                            | Storage \<Rightarrow> storage (thresholds s))) \<and>
         now - (case lnt r of None \<Rightarrow> 0 | Some t \<Rightarrow> t) \<ge> 5 * 60 * 1000)
       [Cpu, Memory, Storage]
   \<and> recorded (checkThresholds s runs now cpuV memV stoV lnt) =
     concat (map (\<lambda>r. sendWebhookNotification s (runs r) r
                    (case r of Cpu \<Rightarrow> cpuV | Memory \<Rightarrow> memV | Storage \<Rightarrow> stoV)
                    (case r of Cpu \<Rightarrow> cpu (thresholds s) | Memory \<Rightarrow> memory (thresholds s)
                             | Storage \<Rightarrow> storage (thresholds s)))
       (filter (\<lambda>r. enabled (thresholds s) \<and>
         jsGe (case r of Cpu \<Rightarrow> cpuV | Memory \<Rightarrow> memV | Storage \<Rightarrow> stoV)
              (Fin (case r of Cpu \<Rightarrow> cpu (thresholds s) | Memory \<Rightarrow> memory (thresholds s)
                            | Storage \<Rightarrow> storage (thresholds s))) \<and>
         now - (case lnt r of None \<Rightarrow> 0 | Some t \<Rightarrow> t) \<ge> 5 * 60 * 1000)
       [Cpu, Memory, Storage]))
   \<and> (let c1 = checkThresholds exampleSettings runs T0 (Fin 85) (Fin 0) (Fin 0) Map.empty;
           c2 = checkThresholds exampleSettings runs (T0 + 60000) (Fin 90) (Fin 0) (Fin 0) (lastTimes c1);
           c3 = checkThresholds exampleSettings runs (T0 + 360000) (Fin 90) (Fin 0) (Fin 0) (lastTimes c2)
       in notified c1 = [(Cpu, Fin 85, 80)] \<and> lastTimes c1 Cpu = Some T0
          \<and> recorded c1 =
              [executeWebhook exampleWebhook ''CPU threshold exceeded: 85.0%'' (runs Cpu exampleWebhook)]
          \<and> notified c2 = [] \<and> lastTimes c2 Cpu = Some T0
          \<and> recorded c2 = []
          \<and> notified c3 = [(Cpu, Fin 90, 80)] \<and> lastTimes c3 Cpu = Some (T0 + 360000)
          \<and> recorded c3 =
              [executeWebhook exampleWebhook ''CPU threshold exceeded: 90.0%'' (runs Cpu exampleWebhook)])"
proof -
  assume t0: "300000 \<le> T0"
  let ?c1 = "checkThresholds exampleSettings runs T0 (Fin 85) (Fin 0) (Fin 0) Map.empty"
  let ?c2 = "checkThresholds exampleSettings runs (T0 + 60000) (Fin 90) (Fin 0) (Fin 0) (lastTimes ?c1)"
  let ?c3 = "checkThresholds exampleSettings runs (T0 + 360000) (Fin 90) (Fin 0) (Fin 0) (lastTimes ?c2)"
  have c1: "notified ?c1 = [(Cpu, Fin 85, 80)]" "lastTimes ?c1 = [Cpu \<mapsto> T0]"
    using t0 by (simp_all add: example_cpu_only checkResource_notified checkResource_lastTimes)
  have r1: "recorded ?c1 =
      [executeWebhook exampleWebhook ''CPU threshold exceeded: 85.0%'' (runs Cpu exampleWebhook)]"
    using t0 by (simp add: example_cpu_only checkResource_recorded example_send)
  have c2: "notified ?c2 = []" "lastTimes ?c2 = [Cpu \<mapsto> T0]"
    unfolding c1 by (simp_all add: example_cpu_only checkResource_notified checkResource_lastTimes)
  have r2: "recorded ?c2 = []"
    unfolding c1 by (simp add: example_cpu_only checkResource_recorded)
  have c3: "notified ?c3 = [(Cpu, Fin 90, 80)]" "lastTimes ?c3 Cpu = Some (T0 + 360000)"
    unfolding c2 by (simp_all add: example_cpu_only checkResource_notified checkResource_lastTimes)
  have r3: "recorded ?c3 =
      [executeWebhook exampleWebhook ''CPU threshold exceeded: 90.0%'' (runs Cpu exampleWebhook)]"
    unfolding c2 by (simp add: example_cpu_only checkResource_recorded example_send)
  have trace: "notified ?c1 = [(Cpu, Fin 85, 80)] \<and> lastTimes ?c1 Cpu = Some T0
          \<and> recorded ?c1 =
              [executeWebhook exampleWebhook ''CPU threshold exceeded: 85.0%'' (runs Cpu exampleWebhook)]
          \<and> notified ?c2 = [] \<and> lastTimes ?c2 Cpu = Some T0
          \<and> recorded ?c2 = []
          \<and> notified ?c3 = [(Cpu, Fin 90, 80)] \<and> lastTimes ?c3 Cpu = Some (T0 + 360000)
          \<and> recorded ?c3 =
              [executeWebhook exampleWebhook ''CPU threshold exceeded: 90.0%'' (runs Cpu exampleWebhook)]"
    using c1 r1 c2 r2 c3 r3 by simp
  show ?thesis
    using checkThresholds_lastTimes [of s runs now cpuV memV stoV lnt]
      checkThresholds_notified [of s runs now cpuV memV stoV lnt]
      checkThresholds_recorded [of s runs now cpuV memV stoV lnt] trace
    unfolding Let_def by blast
qed

text \<open>
  The trace started at the clock reading 1700000000000, the webhook answering with
  status 500: one entry is recorded at the start, none a minute later.
\<close>

theorem checkThresholds_cooldown_witness:
  "(300000::int) \<le> 1700000000000
   \<and> notified (checkThresholds exampleSettings (webhookRuns exampleEnv) 1700000000000
                 (Fin 85) (Fin 0) (Fin 0) Map.empty) = [(Cpu, Fin 85, 80)]
   \<and> recorded (checkThresholds exampleSettings (webhookRuns exampleEnv) 1700000000000
                 (Fin 85) (Fin 0) (Fin 0) Map.empty)
       = [executeWebhook exampleWebhook ''CPU threshold exceeded: 85.0%'' exampleRun500]
   \<and> notified (checkThresholds exampleSettings (webhookRuns exampleEnv) (1700000000000 + 60000)
                 (Fin 90) (Fin 0) (Fin 0)
                 (lastTimes (checkThresholds exampleSettings (webhookRuns exampleEnv) 1700000000000
                               (Fin 85) (Fin 0) (Fin 0) Map.empty))) = []
   \<and> recorded (checkThresholds exampleSettings (webhookRuns exampleEnv) (1700000000000 + 60000)
                 (Fin 90) (Fin 0) (Fin 0)
                 (lastTimes (checkThresholds exampleSettings (webhookRuns exampleEnv) 1700000000000
                               (Fin 85) (Fin 0) (Fin 0) Map.empty))) = []"
proof -
  have h: "(300000::int) \<le> 1700000000000" by simp
  have w: "webhookRuns exampleEnv Cpu exampleWebhook = exampleRun500" by (simp add: exampleEnv_def)
  from checkThresholds_cooldown [OF h, of exampleSettings "webhookRuns exampleEnv" 0 NaN NaN NaN Map.empty]
  show ?thesis unfolding Let_def w using h by blast
qed

section \<open>The first cycle\<close>

text \<open>
  Claim C10. In a cycle that finds no previous container CPU sample in the module's
  variables, the container's CPU percentage is the number 0, stored as \<open>0.00\<close>; when
  the map of the processes is empty as well, as at the start, the CPU percentage of
  every process in the snapshot is null.
\<close>

theorem first_cycle_cpu_usage_is_zero:
  "\<not> (truthy (lastCpuUsageNs g) \<and> lastTsContainer g \<noteq> 0) \<Longrightarrow>
   snd (collectMetrics env g) = Inr out \<Longrightarrow>
   cpuUsagePercent out = Fin 0
   \<and> cpu_usage_percent (data out) = ''0.00''
   \<and> (prevProcTimes g = Map.empty \<longrightarrow>
        (\<forall>e \<in> set (processes (data out)). proc_cpu_usage_percent e = None))"
proof -
  assume first: "\<not> (truthy (lastCpuUsageNs g) \<and> lastTsContainer g \<noteq> 0)"
    and a: "snd (collectMetrics env g) = Inr out"
  from collectMetrics_Inr [OF a] obtain memLimit usageNs where
    cpu: "cpuUsagePercent out =
       cpuUsagePercentOf (lastCpuUsageNs g) (lastTsContainer g) usageNs (dateNow env)
         (getCpuLimit (fileSystem env) (hostCpus env) (detectCgroupVersion (fileSystem env)))"
    and cpuf: "cpu_usage_percent (data out) = fixed2OrZero (cpuUsagePercent out)"
    and sm: "samples out =
       snd (listProcessSamples (ENV_PROC_UIDS (rawProcUids env)) (ENV_PROC_MODE (rawProcMode env))
              (getuidResult env) (PROC_MAX (rawProcMax env)) (CLK_TCK (ensureSysConf env g))
              (procReads env) (prevProcTimes g) (dateNow env)
              (getCpuLimit (fileSystem env) (hostCpus env) (detectCgroupVersion (fileSystem env)))
              memLimit)"
    and pr: "processes (data out) = map processEntryOf (samples out)"
    by blast
  have 1: "cpuUsagePercent out = Fin 0"
    unfolding cpu by (rule cpuUsagePercentOf_first [OF first])
  have z: "fixed2OrZero (Fin 0) = ''0.00''" by code_simp
  have 2: "cpu_usage_percent (data out) = ''0.00''"
    unfolding cpuf 1 by (rule z)
  have 3: "prevProcTimes g = Map.empty \<longrightarrow>
        (\<forall>e \<in> set (processes (data out)). proc_cpu_usage_percent e = None)"
  proof
    assume e: "prevProcTimes g = Map.empty"
    have "\<forall>s \<in> set (samples out). cpu_percent s = None"
      unfolding sm e using listProcessSamples_first_cycle by blast
    then show "\<forall>e \<in> set (processes (data out)). proc_cpu_usage_percent e = None"
      unfolding pr by (simp add: processEntryOf_def)
  qed
  from 1 2 3 show ?thesis by blast
qed

text \<open>The first cycle of the example container: two processes, both with a null share.\<close>

theorem first_cycle_cpu_usage_is_zero_witness:
  "\<not> (truthy (lastCpuUsageNs initialGlobals) \<and> lastTsContainer initialGlobals \<noteq> 0)
   \<and> snd (collectMetrics exampleEnv initialGlobals)
       = Inr (projr (snd (collectMetrics exampleEnv initialGlobals)))
   \<and> prevProcTimes initialGlobals = Map.empty
   \<and> cpuUsagePercent (projr (snd (collectMetrics exampleEnv initialGlobals))) = Fin 0
   \<and> cpu_usage_percent (data (projr (snd (collectMetrics exampleEnv initialGlobals)))) = ''0.00''
   \<and> map proc_cpu_usage_percent
         (processes (data (projr (snd (collectMetrics exampleEnv initialGlobals))))) = [None, None]"
proof -
  let ?out = "projr (snd (collectMetrics exampleEnv initialGlobals))"
  have f: "\<not> (truthy (lastCpuUsageNs initialGlobals) \<and> lastTsContainer initialGlobals \<noteq> 0)"
    by (simp add: initialGlobals_def)
  have h: "snd (collectMetrics exampleEnv initialGlobals) = Inr ?out"
    by (rule Inr_projr [OF exampleEnv_completes])
  have e: "prevProcTimes initialGlobals = Map.empty" by (simp add: initialGlobals_def)
  from first_cycle_cpu_usage_is_zero [OF f h] e
  have r: "cpuUsagePercent ?out = Fin 0" "cpu_usage_percent (data ?out) = ''0.00''"
    "\<forall>e \<in> set (processes (data ?out)). proc_cpu_usage_percent e = None"
    by blast+
  have smp: "samples ?out =
       snd (listProcessSamples (ENV_PROC_UIDS None) (ENV_PROC_MODE None) (Some 0) (PROC_MAX None)
              (CLK_TCK (ensureSysConf exampleEnv initialGlobals)) exampleProcfs Map.empty
              1700000010000 2 104857600)"
    and prs: "processes (data ?out) = map processEntryOf (samples ?out)"
    using collectMetrics_Inr [OF h]
    by (auto simp: exampleEnv_fields exampleEnv_more exampleV2_reads e)
  have "map pid (snd (listProcessSamples (ENV_PROC_UIDS None) (ENV_PROC_MODE None) (Some 0)
         (PROC_MAX None) c exampleProcfs Map.empty 1700000010000 2 104857600)) = [1, 2]" for c
    by (simp add: listProcessSamples_example_pids)
  then have "length (samples ?out) = 2"
    unfolding smp by (metis length_map length_Cons list.size(3) Suc_1 One_nat_def)
  then have "length (processes (data ?out)) = 2" unfolding prs by simp
  then obtain x y where xy: "processes (data ?out) = [x, y]"
    by (metis (no_types, opaque_lifting) length_0_conv length_Suc_conv numeral_2_eq_2)
  with r(3) have "map proc_cpu_usage_percent (processes (data ?out)) = [None, None]" by simp
  with f h e r show ?thesis by blast
qed

end
